theory Spec2Isabelle
  imports Complex_Main "HOL-Library.Word"
begin

section \<open>M48: Z-probe repeatability test\<close>

text \<open>
  A shallow embedding of \<^verbatim>\<open>gcode_M48\<close> (src/commands/gcode/calibrate/m48.h).
  The firmware's \<^verbatim>\<open>float\<close> and \<^verbatim>\<open>double\<close> values are read as real numbers:
  rounding is not modelled, and a probe reading that is not-a-number is the value \<open>None\<close>.
  Everything the routine does to the machine or writes to the serial line is an
  \<open>event\<close>; a run is the list of its events, in order.
\<close>

subsection \<open>Data\<close>

datatype ProbePtRaiseEnum = PROBE_PT_STOW | PROBE_PT_RAISE

datatype event =
    SERIAL_EM string
  | SERIAL_ER string
  | Set_bed_leveling_enabled bool
  | Setup_for_endstop_or_probe_move
  | Check_pt real real ProbePtRaiseEnum int
  | RandomSeed
  | Lcd_point nat nat
  | Starting_radius real real int
  | Pulling_point real real
  | Going_to real real
  | Do_blocking_move_to_xy real real
  | Progress nat nat real "(real \<times> real \<times> real \<times> real \<times> real) option"
  | STOW_PROBE
  | Summary real real real real
  | Standard_deviation real
  | Lcd_deviation real
  | Clean_up_after_endstop_or_probe_move
  | Restore_bed_leveling_state
  | Report_current_position

text \<open>
  The collaborators of the routine and the build-time switches it is compiled under.
  \<open>check_pt m k\<close> is what the \<open>k\<close>-th call of \<^verbatim>\<open>probe.check_pt\<close> of the run returns
  (call \<open>0\<close> is the deployment probe, iteration \<open>n\<close> of the sample loop makes call
  \<open>n + 1\<close>), and \<open>random m k lo hi\<close> is what the \<open>k\<close>-th call of \<^verbatim>\<open>random(lo, hi)\<close>
  returns.
\<close>

record machine =
  axis_unhomed_error :: bool
  current_position_X :: real
  current_position_Y :: real
  probe_offset_X :: real
  probe_offset_Y :: real
  position_is_reachable_by_probe :: "real \<Rightarrow> real \<Rightarrow> bool"
  probe_radius :: real
  X_MIN_BED :: real
  X_MAX_BED :: real
  Y_MIN_BED :: real
  Y_MAX_BED :: real
  HAS_LEVELING :: bool
  HAS_LCD :: bool
  MECH_DELTA :: bool
  check_pt :: "nat \<Rightarrow> real option"
  random :: "nat \<Rightarrow> int \<Rightarrow> int \<Rightarrow> int"

text \<open>
  The parsed command. A numeric option is \<open>None\<close> when its letter was not seen, and
  otherwise holds what \<^verbatim>\<open>parser.value_byte()\<close> (a \<^verbatim>\<open>uint8_t\<close>) or
  \<^verbatim>\<open>parser.linearval\<close> returns.
\<close>

record request =
  opt_V :: "8 word option"
  opt_P :: "8 word option"
  opt_E :: bool
  opt_X :: "real option"
  opt_Y :: "real option"
  opt_L :: "8 word option"
  opt_S :: bool

record configuration =
  verbose_level :: int
  n_samples :: nat
  raise_after :: ProbePtRaiseEnum
  X_probe_location :: real
  Y_probe_location :: real
  n_legs :: nat
  schizoid_flag :: bool

datatype error =
    Unhomed
  | Verbose_not_plausible
  | Sample_size_not_plausible
  | Out_of_bounds
  | Legs_not_plausible

record m48_state =
  rnd_calls :: nat
  sample_set :: "real list"
  mean :: real
  sigma :: real
  min_v :: real
  max_v :: real
  probing_good :: bool
  out :: "event list"

subsection \<open>Macros of the firmware's headers\<close>

definition WITHIN :: "int \<Rightarrow> int \<Rightarrow> int \<Rightarrow> bool" where
  \<comment> \<open>Modelled from the spec: the macro \<^verbatim>\<open>WITHIN\<close> is declared outside m48.h; the spec
      reads it as "must lie in [lo, hi]".\<close>
  "WITHIN v lo hi = (lo \<le> v \<and> v \<le> hi)"

definition NOMORE :: "real \<Rightarrow> real \<Rightarrow> real" where
  \<comment> \<open>Modelled from the spec: the macro \<^verbatim>\<open>NOMORE\<close> is declared outside m48.h; the spec
      reads it as "min = min(min, sample)".\<close>
  "NOMORE v n = (if v > n then n else v)"

definition NOLESS :: "real \<Rightarrow> real \<Rightarrow> real" where
  \<comment> \<open>Modelled from the spec: the macro \<^verbatim>\<open>NOLESS\<close> is declared outside m48.h; the spec
      reads it as "max = max(max, sample)".\<close>
  "NOLESS v n = (if v < n then n else v)"

definition LIMIT :: "real \<Rightarrow> real \<Rightarrow> real \<Rightarrow> real" where
  \<comment> \<open>Modelled from the spec: the macro \<^verbatim>\<open>LIMIT\<close> is declared outside m48.h; the spec
      reads it as "clamp each coordinate independently to the bed's min/max bounds".\<close>
  "LIMIT v lo hi = (if v < lo then lo else if v > hi then hi else v)"

definition RADIANS :: "real \<Rightarrow> real" where
  \<comment> \<open>Modelled from the spec: the macro \<^verbatim>\<open>RADIANS\<close> is declared outside m48.h; angles are
      in degrees and the trigonometric functions take radians.\<close>
  "RADIANS d = d * pi / 180"

definition sq :: "real \<Rightarrow> real" where
  \<comment> \<open>Modelled from the spec: the macro \<^verbatim>\<open>sq\<close> is declared outside m48.h; the spec
      reads it as the square.\<close>
  "sq x = x * x"

definition int_cast :: "real \<Rightarrow> int" where
  \<comment> \<open>The C conversion \<^verbatim>\<open>(int)\<close> of a floating value: truncation towards zero.\<close>
  "int_cast x = (if 0 \<le> x then \<lfloor>x\<rfloor> else \<lceil>x\<rceil>)"

subsection \<open>Parameter validation (lines 53 to 92)\<close>

definition validate :: "machine \<Rightarrow> request \<Rightarrow> event list \<times> (error + configuration)" where
  "validate m req =
    (if axis_unhomed_error m then ([], Inl Unhomed)
     else
      let verbose_level = (case opt_V req of Some b \<Rightarrow> sint b | None \<Rightarrow> 1) in
      if \<not> WITHIN verbose_level 0 4
      then ([SERIAL_ER ''?Verbose Level not plausible (0-4).''], Inl Verbose_not_plausible)
      else
       let banner = (if verbose_level > 0 then [SERIAL_EM ''M48 Z-Probe Repeatability Test''] else []);
           n_samples = (case opt_P req of Some b \<Rightarrow> sint b | None \<Rightarrow> 10) in
       if \<not> WITHIN n_samples 4 50
       then (banner @ [SERIAL_ER ''?Sample size not plausible (4-50).''],
             Inl Sample_size_not_plausible)
       else
        let raise_after = (if opt_E req then PROBE_PT_STOW else PROBE_PT_RAISE);
            X_current = current_position_X m;
            Y_current = current_position_Y m;
            X_probe_location =
              (case opt_X req of Some v \<Rightarrow> v | None \<Rightarrow> X_current + probe_offset_X m);
            Y_probe_location =
              (case opt_Y req of Some v \<Rightarrow> v | None \<Rightarrow> Y_current + probe_offset_Y m) in
        if \<not> position_is_reachable_by_probe m X_probe_location Y_probe_location
        then (banner @ [SERIAL_ER ''? (X,Y) out of bounds.''], Inl Out_of_bounds)
        else
         let seen_L = (opt_L req \<noteq> None);
             n_legs = (case opt_L req of Some b \<Rightarrow> unat b | None \<Rightarrow> 0) in
         if n_legs > 15
         then (banner @ [SERIAL_ER ''?Number of legs in movement not plausible (0-15).''],
               Inl Legs_not_plausible)
         else
          let n_legs = (if n_legs = 1 then 2 else n_legs);
              schizoid_flag = opt_S req;
              n_legs = (if schizoid_flag \<and> \<not> seen_L then 7 else n_legs) in
          (banner,
           Inr \<lparr> verbose_level = verbose_level, n_samples = nat n_samples,
                 raise_after = raise_after,
                 X_probe_location = X_probe_location, Y_probe_location = Y_probe_location,
                 n_legs = n_legs, schizoid_flag = schizoid_flag \<rparr>))"

subsection \<open>Movement pattern (lines 124 to 192)\<close>

definition dir_of :: "int \<Rightarrow> int" where
  \<comment> \<open>Line 125: the direction chosen from the value drawn by \<^verbatim>\<open>random(0, 10)\<close>.\<close>
  "dir_of r = (if r > 5 then - 1 else 1)"

text \<open>Lines 159 to 162: the two loops that bring the angle back into range.\<close>

function wrap_down :: "real \<Rightarrow> real" where
  "wrap_down angle = (if angle > 360 then wrap_down (angle - 360) else angle)"
  by pat_completeness auto
termination
proof (relation "measure (\<lambda>a. nat \<lceil>a / 360\<rceil>)")
  show "wf (measure (\<lambda>a::real. nat \<lceil>a / 360\<rceil>))" by simp
next
  fix angle :: real
  assume a: "360 < angle"
  have "\<lceil>(angle - 360) / 360\<rceil> = \<lceil>angle / 360\<rceil> - 1"
    by (simp add: diff_divide_distrib)
  moreover from a have "1 < \<lceil>angle / 360\<rceil>"
    by (simp add: less_ceiling_iff)
  ultimately show "(angle - 360, angle) \<in> measure (\<lambda>a. nat \<lceil>a / 360\<rceil>)"
    by simp
qed

function wrap_up :: "real \<Rightarrow> real" where
  "wrap_up angle = (if angle < 0 then wrap_up (angle + 360) else angle)"
  by pat_completeness auto
termination
proof (relation "measure (\<lambda>a. nat \<lceil>- a / 360\<rceil>)")
  show "wf (measure (\<lambda>a::real. nat \<lceil>- a / 360\<rceil>))" by simp
next
  fix angle :: real
  assume a: "angle < 0"
  have e: "- (angle + 360) / 360 = - angle / 360 - 1"
    by (simp add: field_simps)
  have "\<lceil>- (angle + 360) / 360\<rceil> = \<lceil>- angle / 360\<rceil> - 1"
    unfolding e by (rule ceiling_diff_one)
  moreover from a have "0 < \<lceil>- angle / 360\<rceil>"
    by (simp add: less_ceiling_iff)
  ultimately have "nat \<lceil>- (angle + 360) / 360\<rceil> < nat \<lceil>- angle / 360\<rceil>"
    by linarith
  then show "(angle + 360, angle) \<in> measure (\<lambda>a. nat \<lceil>- a / 360\<rceil>)"
    by (simp only: in_measure)
qed

definition wrap_angle :: "real \<Rightarrow> real" where
  "wrap_angle angle = wrap_up (wrap_down angle)"

text \<open>
  Lines 170 to 177: the loop that pulls an unreachable point towards the centre.
  Nothing in the loop bounds the number of rounds, so the model is a partial function:
  \<open>None\<close> is a loop that never ends.
\<close>

partial_function (option) pull_towards_center ::
  "(real \<Rightarrow> real \<Rightarrow> bool) \<Rightarrow> int \<Rightarrow> real \<Rightarrow> real \<Rightarrow> event list
     \<Rightarrow> (real \<times> real \<times> event list) option" where
  "pull_towards_center reachable verbose X_current Y_current evs =
    (if \<not> reachable X_current Y_current
     then pull_towards_center reachable verbose (X_current * 0.8) (Y_current * 0.8)
            (evs @ (if verbose > 3
                    then [Pulling_point (X_current * 0.8) (Y_current * 0.8)] else []))
     else Some (X_current, Y_current, evs))"

text \<open>
  One pass of the loop over the legs (lines 145 to 190). The state is the angle, the
  number of calls of \<^verbatim>\<open>random\<close> made so far and the events of this sample's movement.
  \<^verbatim>\<open>X_current\<close> and \<^verbatim>\<open>Y_current\<close> are written before they are read in every pass, so
  they are local here. The message of lines 184 to 187 also prints the current Z, which
  the routine only reads; \<open>Going_to\<close> keeps X and Y.
\<close>

definition leg_step ::
  "machine \<Rightarrow> configuration \<Rightarrow> int \<Rightarrow> real \<Rightarrow> real \<times> nat \<times> event list
     \<Rightarrow> (real \<times> nat \<times> event list) option" where
  "leg_step m cfg dir radius s =
    (case s of (angle, ri, evs) \<Rightarrow>
      let delta_angle =
            (if schizoid_flag cfg then real_of_int dir * 2 * 72
             else real_of_int dir * real_of_int (random m ri 25 45));
          ri = (if schizoid_flag cfg then ri else Suc ri);
          angle = wrap_angle (angle + delta_angle);
          X_current = X_probe_location cfg - probe_offset_X m + cos (RADIANS angle) * radius;
          Y_current = Y_probe_location cfg - probe_offset_Y m + sin (RADIANS angle) * radius
      in case (if MECH_DELTA m
               then pull_towards_center (position_is_reachable_by_probe m) (verbose_level cfg)
                      X_current Y_current []
               else Some (LIMIT X_current (X_MIN_BED m) (X_MAX_BED m),
                          LIMIT Y_current (Y_MIN_BED m) (Y_MAX_BED m), []))
         of None \<Rightarrow> None
          | Some (x, y, pulled) \<Rightarrow>
              Some (angle, ri,
                    evs @ pulled
                        @ (if verbose_level cfg > 3 then [Going_to x y] else [])
                        @ [Do_blocking_move_to_xy x y]))"

function leg_loop ::
  "machine \<Rightarrow> configuration \<Rightarrow> int \<Rightarrow> real \<Rightarrow> nat \<Rightarrow> real \<times> nat \<times> event list
     \<Rightarrow> (real \<times> nat \<times> event list) option" where
  "leg_loop m cfg dir radius l s =
    (if l < n_legs cfg - 1
     then (case leg_step m cfg dir radius s of
             None \<Rightarrow> None
           | Some s' \<Rightarrow> leg_loop m cfg dir radius (Suc l) s')
     else Some s)"
  by pat_completeness auto
termination
  by (relation "measure (\<lambda>(m, cfg, dir, radius, l, s). n_legs cfg - 1 - l)") auto

text \<open>
  Lines 124 to 192: the movement before one sample. It takes the number of calls of
  \<^verbatim>\<open>random\<close> made so far and returns the new number with the events of the movement.
\<close>

definition move_pattern ::
  "machine \<Rightarrow> configuration \<Rightarrow> nat \<Rightarrow> (nat \<times> event list) option" where
  "move_pattern m cfg ri =
    (if n_legs cfg \<noteq> 0 then
       let dir = dir_of (random m ri 0 10);
           angle = real_of_int (random m (ri + 1) 0 360);
           radius = real_of_int
             (if MECH_DELTA m
              then random m (ri + 2) (int_cast (0.1250000000 * probe_radius m))
                                     (int_cast (0.3333333333 * probe_radius m))
              else random m (ri + 2) 5 (int_cast (0.125 * min (X_MAX_BED m) (Y_MAX_BED m))))
       in case leg_loop m cfg dir radius 0
                 (angle, ri + 3,
                  if verbose_level cfg > 3 then [Starting_radius radius angle dir] else [])
          of None \<Rightarrow> None
           | Some (angle', ri', evs) \<Rightarrow> Some (ri', evs)
     else Some (ri, []))"

subsection \<open>The sample loop (lines 119 to 236)\<close>

text \<open>
  Lines 201 to 234: the statistics after sample \<open>n\<close> has been stored in the sample set.
  Both sums run over the entries \<open>0\<close> to \<open>n\<close> of the sample set again.
\<close>

definition accumulate :: "configuration \<Rightarrow> nat \<Rightarrow> m48_state \<Rightarrow> m48_state" where
  "accumulate cfg n st =
    (let sum = fold (\<lambda>j s. s + sample_set st ! j) [0..<Suc n] 0;
         mean = sum / real (n + 1);
         min_v = NOMORE (min_v st) (sample_set st ! n);
         max_v = NOLESS (max_v st) (sample_set st ! n);
         sum = fold (\<lambda>j s. s + sq (sample_set st ! j - mean)) [0..<Suc n] 0;
         sigma = sqrt (sum / real (n + 1))
     in st \<lparr> mean := mean, sigma := sigma, min_v := min_v, max_v := max_v,
             out := out st @
               (if verbose_level cfg > 0 \<and> verbose_level cfg > 1
                then [Progress (n + 1) (n_samples cfg) (sample_set st ! n)
                        (if verbose_level cfg > 2
                         then Some (mean, sigma, min_v, max_v, max_v - min_v) else None)]
                else []) \<rparr>)"

text \<open>
  One pass of the sample loop. A reading that is not a number ends the loop before it
  is used, so the model leaves the sample set as it is in that case.
\<close>

definition sample_iteration ::
  "machine \<Rightarrow> configuration \<Rightarrow> nat \<Rightarrow> m48_state \<Rightarrow> m48_state option" where
  "sample_iteration m cfg n st =
    (case move_pattern m cfg (rnd_calls st) of
       None \<Rightarrow> None
     | Some (ri, moves) \<Rightarrow>
        let st = st \<lparr> rnd_calls := ri,
                      out := out st
                        @ (if HAS_LCD m then [Lcd_point (n + 1) (n_samples cfg)] else [])
                        @ moves
                        @ [Check_pt (X_probe_location cfg) (Y_probe_location cfg)
                             (raise_after cfg) 0] \<rparr>
        in case check_pt m (Suc n) of
             None \<Rightarrow> Some (st \<lparr> probing_good := False \<rparr>)
           | Some z \<Rightarrow>
               Some (accumulate cfg n
                 (st \<lparr> sample_set := (sample_set st)[n := z], probing_good := True \<rparr>)))"

function sample_loop ::
  "machine \<Rightarrow> configuration \<Rightarrow> nat \<Rightarrow> m48_state \<Rightarrow> m48_state option" where
  "sample_loop m cfg n st =
    (if n < n_samples cfg
     then (case sample_iteration m cfg n st of
             None \<Rightarrow> None
           | Some st' \<Rightarrow>
               if \<not> probing_good st' then Some st' else sample_loop m cfg (Suc n) st')
     else Some st)"
  by pat_completeness auto
termination
  by (relation "measure (\<lambda>(m, cfg, n, st). n_samples cfg - n)") auto

subsection \<open>The whole command\<close>

text \<open>Lines 241 to 261: what is reported once the probe is stowed.\<close>

definition report_results :: "machine \<Rightarrow> configuration \<Rightarrow> m48_state \<Rightarrow> event list" where
  "report_results m cfg st =
    (if probing_good st
     then [SERIAL_EM ''Finished!'']
        @ (if verbose_level cfg > 0
           then [Summary (mean st) (min_v st) (max_v st) (max_v st - min_v st)] else [])
        @ [Standard_deviation (sigma st), SERIAL_EM []]
        @ (if HAS_LCD m then [Lcd_deviation (sigma st)] else [])
     else [])"

text \<open>
  Lines 109 to 115: the state before the sample loop, after the deployment probe. The
  array of samples is not initialised by the code; no entry is read before it is written.
\<close>

definition initial_state :: "machine \<Rightarrow> configuration \<Rightarrow> event list \<Rightarrow> m48_state" where
  "initial_state m cfg evs =
    \<lparr> rnd_calls = 0, sample_set = replicate (n_samples cfg) 0,
      mean = 0.0, sigma = 0.0, min_v = 99999.9, max_v = - 99999.9,
      probing_good = (check_pt m 0 \<noteq> None),
      out = evs @ [Check_pt (X_probe_location cfg) (Y_probe_location cfg) (raise_after cfg)
                     (verbose_level cfg)] \<rparr>"

text \<open>Lines 99 to 270: the test itself, for a configuration that passed the checks.\<close>

definition run_test :: "machine \<Rightarrow> configuration \<Rightarrow> event list \<Rightarrow> event list option" where
  "run_test m cfg evs =
    (let evs = evs
           @ (if verbose_level cfg > 2 then [SERIAL_EM ''Positioning the probe...''] else [])
           @ (if HAS_LEVELING m then [Set_bed_leveling_enabled False] else [])
           @ [Setup_for_endstop_or_probe_move];
         st = initial_state m cfg evs
     in case (if probing_good st
              then sample_loop m cfg 0 (st \<lparr> out := out st @ [RandomSeed] \<rparr>)
              else Some st)
        of None \<Rightarrow> None
         | Some st \<Rightarrow>
             Some (out st @ [STOW_PROBE] @ report_results m cfg st
                     @ [Clean_up_after_endstop_or_probe_move]
                     @ (if HAS_LEVELING m then [Restore_bed_leveling_state] else [])
                     @ [Report_current_position]))"

definition gcode_M48 :: "machine \<Rightarrow> request \<Rightarrow> event list option" where
  "gcode_M48 m req =
    (case validate m req of
       (evs, Inl e) \<Rightarrow> Some evs
     | (evs, Inr cfg) \<Rightarrow> run_test m cfg evs)"

subsection \<open>Vocabulary of the properties\<close>

text \<open>
  What a request asks for, read as the unsigned bytes the parser returns, and the classes
  of events the properties speak about.
\<close>

definition verbose_ok :: "request \<Rightarrow> bool" where
  "verbose_ok req = (case opt_V req of None \<Rightarrow> True | Some b \<Rightarrow> unat b \<le> 4)"

definition samples_ok :: "request \<Rightarrow> bool" where
  "samples_ok req = (case opt_P req of None \<Rightarrow> True | Some b \<Rightarrow> 4 \<le> unat b \<and> unat b \<le> 50)"

definition legs_ok :: "request \<Rightarrow> bool" where
  "legs_ok req = (case opt_L req of None \<Rightarrow> True | Some b \<Rightarrow> unat b \<le> 15)"

definition target_reachable :: "machine \<Rightarrow> request \<Rightarrow> bool" where
  "target_reachable m req =
     position_is_reachable_by_probe m
       (case opt_X req of Some v \<Rightarrow> v | None \<Rightarrow> current_position_X m + probe_offset_X m)
       (case opt_Y req of Some v \<Rightarrow> v | None \<Rightarrow> current_position_Y m + probe_offset_Y m)"

definition is_serial :: "event \<Rightarrow> bool" where
  "is_serial e = (case e of SERIAL_EM s \<Rightarrow> True | SERIAL_ER s \<Rightarrow> True | _ \<Rightarrow> False)"

definition is_error :: "event \<Rightarrow> bool" where
  "is_error e = (case e of SERIAL_ER s \<Rightarrow> True | _ \<Rightarrow> False)"

fun is_move_event :: "event \<Rightarrow> bool" where
  "is_move_event (Starting_radius r a d) = True"
| "is_move_event (Pulling_point x y) = True"
| "is_move_event (Going_to x y) = True"
| "is_move_event (Do_blocking_move_to_xy x y) = True"
| "is_move_event _ = False"

fun is_probe_read :: "event \<Rightarrow> bool" where
  "is_probe_read (Check_pt x y r v) = True"
| "is_probe_read _ = False"

fun is_loop_event :: "event \<Rightarrow> bool" where
  "is_loop_event (Lcd_point i n) = True"
| "is_loop_event (Progress i n z s) = True"
| "is_loop_event (Check_pt x y r v) = True"
| "is_loop_event e = is_move_event e"

text \<open>
  The readings of the first \<open>k\<close> passes of the sample loop, and the statistics the spec
  defines on a list of samples. The limits \<open>99999.9\<close> and \<open>- 99999.9\<close> are the values the
  running minimum and maximum start from.
\<close>

definition samples :: "machine \<Rightarrow> nat \<Rightarrow> real list" where
  "samples m k = map (\<lambda>j. the (check_pt m (Suc j))) [0..<k]"

definition mean_of :: "real list \<Rightarrow> real" where
  "mean_of xs = sum_list xs / real (length xs)"

definition sigma_of :: "real list \<Rightarrow> real" where
  "sigma_of xs = sqrt (sum_list (map (\<lambda>x. (x - mean_of xs)\<^sup>2) xs) / real (length xs))"

definition min_of :: "real list \<Rightarrow> real" where
  "min_of xs = Min (insert 99999.9 (set xs))"

definition max_of :: "real list \<Rightarrow> real" where
  "max_of xs = Max (insert (- 99999.9) (set xs))"

definition stats_hold :: "machine \<Rightarrow> nat \<Rightarrow> m48_state \<Rightarrow> bool" where
  "stats_hold m k st \<longleftrightarrow>
     take k (sample_set st) = samples m k
     \<and> min_v st = min_of (samples m k) \<and> max_v st = max_of (samples m k)
     \<and> (0 < k \<longrightarrow> mean st = mean_of (samples m k) \<and> sigma st = sigma_of (samples m k))
     \<and> probing_good st"

text \<open>
  The first \<open>k\<close> passes of the sample loop from pass \<open>n\<close> on, without the test that ends
  the loop: the state the loop is in after \<open>k\<close> readings that were all numbers.
\<close>

primrec iterations ::
  "machine \<Rightarrow> configuration \<Rightarrow> nat \<Rightarrow> nat \<Rightarrow> m48_state \<Rightarrow> m48_state option" where
  "iterations m cfg n 0 st = Some st"
| "iterations m cfg n (Suc k) st =
    (case sample_iteration m cfg n st of
       None \<Rightarrow> None
     | Some st' \<Rightarrow> iterations m cfg (Suc n) k st')"

text \<open>
  The probe reaches every point of some disc around the centre of the bed.
\<close>

definition centre_reachable :: "machine \<Rightarrow> bool" where
  "centre_reachable m =
    (\<exists>\<rho>>0. \<forall>x y. x\<^sup>2 + y\<^sup>2 \<le> \<rho>\<^sup>2 \<longrightarrow> position_is_reachable_by_probe m x y)"

definition delta_reachable :: "real \<Rightarrow> real \<Rightarrow> real \<Rightarrow> bool" where
  \<comment> \<open>Modelled from the spec: \<^verbatim>\<open>mechanics.position_is_reachable_by_probe\<close> is defined
      outside m48.h; the spec describes center-pivoted kinematics as a geometry "where
      reachable points are bounded by a radius from a central pivot".\<close>
  "delta_reachable R x y = (x\<^sup>2 + y\<^sup>2 \<le> R\<^sup>2)"

text \<open>A Cartesian machine on the bench and the command without options, for examples.\<close>

definition cartesian_bench :: machine where
  "cartesian_bench =
    \<lparr> axis_unhomed_error = False,
      current_position_X = 100, current_position_Y = 100,
      probe_offset_X = 0, probe_offset_Y = 0,
      position_is_reachable_by_probe = (\<lambda>x y. 0 \<le> x \<and> x \<le> 200 \<and> 0 \<le> y \<and> y \<le> 200),
      probe_radius = 0,
      X_MIN_BED = 0, X_MAX_BED = 200, Y_MIN_BED = 0, Y_MAX_BED = 200,
      HAS_LEVELING = True, HAS_LCD = False, MECH_DELTA = False,
      check_pt = (\<lambda>k. Some 1),
      random = (\<lambda>k lo hi. lo) \<rparr>"

definition plain_request :: request where
  "plain_request =
    \<lparr> opt_V = None, opt_P = None, opt_E = False, opt_X = None, opt_Y = None,
      opt_L = None, opt_S = False \<rparr>"

text \<open>The events that report statistics at the end of a run.\<close>

fun is_report :: "event \<Rightarrow> bool" where
  "is_report (Summary a b c d) = True"
| "is_report (Standard_deviation s) = True"
| "is_report _ = False"

text \<open>
  The state the sample loop starts in, and the events of a run before the deployment
  probe, of the deployment probe and after the probe is stowed, as \<open>run_test\<close> produces
  them.
\<close>

definition loop_start :: "machine \<Rightarrow> configuration \<Rightarrow> event list \<Rightarrow> m48_state" where
  "loop_start m cfg evs =
     (initial_state m cfg evs) \<lparr> out := out (initial_state m cfg evs) @ [RandomSeed] \<rparr>"

definition before_probe :: "machine \<Rightarrow> configuration \<Rightarrow> event list" where
  "before_probe m cfg =
     (if verbose_level cfg > 2 then [SERIAL_EM ''Positioning the probe...''] else [])
     @ (if HAS_LEVELING m then [Set_bed_leveling_enabled False] else [])
     @ [Setup_for_endstop_or_probe_move]"

definition deployment_probe :: "configuration \<Rightarrow> event" where
  "deployment_probe cfg =
     Check_pt (X_probe_location cfg) (Y_probe_location cfg) (raise_after cfg) (verbose_level cfg)"

definition cleanup :: "machine \<Rightarrow> event list" where
  "cleanup m =
     [Clean_up_after_endstop_or_probe_move]
     @ (if HAS_LEVELING m then [Restore_bed_leveling_state] else [])
     @ [Report_current_position]"

text \<open>
  Benches whose probe reads 100000 every time and returns the four readings of the
  spec's scenario, and a delta machine of probe radius 100 whose third reading fails.
\<close>

definition far_bench :: machine where
  "far_bench = cartesian_bench \<lparr> check_pt := (\<lambda>k. Some 100000) \<rparr>"


definition scenario_bench :: machine where
  "scenario_bench = cartesian_bench
     \<lparr> check_pt := (\<lambda>k. if k = 1 then Some 1.000 else if k = 2 then Some 1.002
                          else if k = 3 then Some 0.998 else Some 1.001) \<rparr>"

definition delta_bench :: machine where
  "delta_bench =
    \<lparr> axis_unhomed_error = False,
      current_position_X = 0, current_position_Y = 0,
      probe_offset_X = 0, probe_offset_Y = 0,
      position_is_reachable_by_probe = delta_reachable 100,
      probe_radius = 100,
      X_MIN_BED = - 100, X_MAX_BED = 100, Y_MIN_BED = - 100, Y_MAX_BED = 100,
      HAS_LEVELING = True, HAS_LCD = True, MECH_DELTA = True,
      check_pt = (\<lambda>k. if k = 2 then None else Some 1),
      random = (\<lambda>k lo hi. lo) \<rparr>"

text \<open>
  The progress line of sample \<open>k\<close> at verbose level 3 or 4 and the summary line of the
  final report, with the statistics of the samples taken so far.
\<close>

definition progress_line :: "machine \<Rightarrow> configuration \<Rightarrow> nat \<Rightarrow> event" where
  "progress_line m cfg k =
     Progress k (n_samples cfg) (the (check_pt m k))
       (Some (mean_of (samples m k), sigma_of (samples m k),
              min_of (samples m k), max_of (samples m k),
              max_of (samples m k) - min_of (samples m k)))"

definition summary_line :: "machine \<Rightarrow> configuration \<Rightarrow> event" where
  "summary_line m cfg =
     Summary (mean_of (samples m (n_samples cfg)))
       (min_of (samples m (n_samples cfg))) (max_of (samples m (n_samples cfg)))
       (max_of (samples m (n_samples cfg)) - min_of (samples m (n_samples cfg)))"

text \<open>
  A bench whose second sample reads 200000, and a build without bed levelling whose
  deployment probe fails.
\<close>

definition wide_bench :: machine where
  "wide_bench = cartesian_bench
     \<lparr> check_pt := (\<lambda>k. if k = 2 then Some 200000 else Some 1) \<rparr>"

definition bare_bench :: machine where
  "bare_bench = cartesian_bench \<lparr> HAS_LEVELING := False, check_pt := (\<lambda>k. None) \<rparr>"

declare wrap_down.simps [simp del] wrap_up.simps [simp del]
declare leg_loop.simps [simp del] sample_loop.simps [simp del]

section \<open>Properties\<close>

subsection \<open>Parameter validation\<close>

lemma sint_byte: "sint (b :: 8 word) = (if uint b < 128 then uint b else uint b - 256)"
proof -
  have s: "sint b = (uint b + 128) mod 256 - 128"
    by (simp add: sint_uint signed_take_bit_eq_take_bit_shift take_bit_eq_mod)
  have r: "0 \<le> uint b" "uint b < 256"
    using uint_lt2p [of b] by simp_all
  show ?thesis
  proof (cases "uint b < 128")
    case True
    with r have "(uint b + 128) mod 256 = uint b + 128" by simp
    with s True show ?thesis by simp
  next
    case False
    with r have "(uint b + 128) mod 256 = uint b + 128 - 256"
      by (simp add: mod_pos_geq)
    with s False show ?thesis by simp
  qed
qed

lemma WITHIN_sint_byte:
  "0 \<le> lo \<Longrightarrow> hi < 128 \<Longrightarrow> WITHIN (sint (b :: 8 word)) lo hi \<longleftrightarrow> lo \<le> uint b \<and> uint b \<le> hi"
  using uint_lt2p [of b] by (auto simp: WITHIN_def sint_byte)

lemma verbose_ok_iff:
  "verbose_ok req \<longleftrightarrow> WITHIN (case opt_V req of Some b \<Rightarrow> sint b | None \<Rightarrow> 1) 0 4"
proof (cases "opt_V req")
  case None
  then show ?thesis by (simp add: verbose_ok_def WITHIN_def)
next
  case (Some b)
  have "uint b = int (unat b)" by simp
  then have "unat b \<le> 4 \<longleftrightarrow> uint b \<le> 4" by linarith
  with Some show ?thesis by (simp add: verbose_ok_def WITHIN_sint_byte)
qed

lemma samples_ok_iff:
  "samples_ok req \<longleftrightarrow> WITHIN (case opt_P req of Some b \<Rightarrow> sint b | None \<Rightarrow> 10) 4 50"
proof (cases "opt_P req")
  case None
  then show ?thesis by (simp add: samples_ok_def WITHIN_def)
next
  case (Some b)
  have "uint b = int (unat b)" by simp
  then have "4 \<le> unat b \<and> unat b \<le> 50 \<longleftrightarrow> 4 \<le> uint b \<and> uint b \<le> 50" by linarith
  with Some show ?thesis by (simp add: samples_ok_def WITHIN_sint_byte)
qed

lemma legs_ok_iff:
  "legs_ok req \<longleftrightarrow> \<not> (case opt_L req of Some b \<Rightarrow> unat b | None \<Rightarrow> 0) > 15"
  by (cases "opt_L req") (auto simp: legs_ok_def)

text \<open>
  C2. A request whose sample count, verbose level or number of legs is out of range
  ends with serial output only: no motion, no probe read, no change of bed levelling.
  The one error message is that of the first check that fails, in the order of the code:
  none when the axes are not homed, then verbose level, sample count, target position,
  legs. A legs error is reported only when the target is reachable.
\<close>

theorem invalid_request_aborts:
  assumes "\<not> verbose_ok req \<or> \<not> samples_ok req \<or> \<not> legs_ok req"
  shows "\<exists>evs. gcode_M48 m req = Some evs \<and> (\<forall>e \<in> set evs. is_serial e)
     \<and> filter is_error evs =
        (if axis_unhomed_error m then []
         else if \<not> verbose_ok req then [SERIAL_ER ''?Verbose Level not plausible (0-4).'']
         else if \<not> samples_ok req then [SERIAL_ER ''?Sample size not plausible (4-50).'']
         else if \<not> target_reachable m req then [SERIAL_ER ''? (X,Y) out of bounds.'']
         else [SERIAL_ER ''?Number of legs in movement not plausible (0-15).''])"
  using assms
  unfolding verbose_ok_iff samples_ok_iff legs_ok_iff target_reachable_def
  by (auto simp: gcode_M48_def validate_def Let_def is_serial_def is_error_def)

theorem invalid_request_aborts_witness:
  "\<not> legs_ok (plain_request \<lparr> opt_L := Some 20 \<rparr>)
   \<and> gcode_M48 cartesian_bench (plain_request \<lparr> opt_L := Some 20 \<rparr>)
       = Some [SERIAL_EM ''M48 Z-Probe Repeatability Test'',
               SERIAL_ER ''?Number of legs in movement not plausible (0-15).'']"
proof -
  have h: "\<not> legs_ok (plain_request \<lparr> opt_L := Some 20 \<rparr>)"
    by (simp add: legs_ok_def plain_request_def)
  have "gcode_M48 cartesian_bench (plain_request \<lparr> opt_L := Some 20 \<rparr>)
       = Some [SERIAL_EM ''M48 Z-Probe Repeatability Test'',
               SERIAL_ER ''?Number of legs in movement not plausible (0-15).'']"
    by (simp add: gcode_M48_def validate_def cartesian_bench_def plain_request_def WITHIN_def)
  with h invalid_request_aborts [of "plain_request \<lparr> opt_L := Some 20 \<rparr>" cartesian_bench]
  show ?thesis by simp
qed

text \<open>
  With 20 legs and a target outside the bed the message is the one of the target, not
  the one of the legs.
\<close>

theorem legs_message_counterexample:
  "\<not> legs_ok (plain_request \<lparr> opt_X := Some 500, opt_L := Some 20 \<rparr>)
   \<and> gcode_M48 cartesian_bench (plain_request \<lparr> opt_X := Some 500, opt_L := Some 20 \<rparr>)
       = Some [SERIAL_EM ''M48 Z-Probe Repeatability Test'',
               SERIAL_ER ''? (X,Y) out of bounds.'']"
  by (simp add: gcode_M48_def validate_def cartesian_bench_def plain_request_def WITHIN_def
      legs_ok_def)

lemma unat_one_iff: "unat (b :: 8 word) = Suc 0 \<longleftrightarrow> b = 1"
  by (simp add: word_unat_eq_iff)

text \<open>
  C6. The number of legs of a configuration that passed the checks is 2 when 1 was
  asked for, 7 when the schizoid flag is set and no number was given, and the number
  asked for otherwise (0 when none was given). The test runs on this configuration, and
  nothing but serial output came before.
\<close>

theorem legs_normalised:
  assumes "validate m req = (evs, Inr cfg)"
  shows "n_legs cfg =
           (if opt_L req = Some 1 then 2
            else if opt_S req \<and> opt_L req = None then 7
            else (case opt_L req of None \<Rightarrow> 0 | Some b \<Rightarrow> unat b))
         \<and> gcode_M48 m req = run_test m cfg evs
         \<and> (\<forall>e \<in> set evs. is_serial e)"
  using assms
  by (auto simp: validate_def Let_def gcode_M48_def is_serial_def unat_one_iff
      split: if_splits option.splits)

theorem legs_normalised_witness:
  "validate cartesian_bench (plain_request \<lparr> opt_L := Some 1 \<rparr>)
     = ([SERIAL_EM ''M48 Z-Probe Repeatability Test''],
        Inr \<lparr> verbose_level = 1, n_samples = 10, raise_after = PROBE_PT_RAISE,
              X_probe_location = 100, Y_probe_location = 100, n_legs = 2,
              schizoid_flag = False \<rparr>)
   \<and> n_legs \<lparr> verbose_level = 1, n_samples = 10, raise_after = PROBE_PT_RAISE,
              X_probe_location = 100, Y_probe_location = 100, n_legs = 2,
              schizoid_flag = False \<rparr> = 2"
proof -
  have v: "validate cartesian_bench (plain_request \<lparr> opt_L := Some 1 \<rparr>)
     = ([SERIAL_EM ''M48 Z-Probe Repeatability Test''],
        Inr \<lparr> verbose_level = 1, n_samples = 10, raise_after = PROBE_PT_RAISE,
              X_probe_location = 100, Y_probe_location = 100, n_legs = 2,
              schizoid_flag = False \<rparr>)"
    by (simp add: validate_def cartesian_bench_def plain_request_def WITHIN_def)
  from legs_normalised [OF v] v show ?thesis
    by (simp add: plain_request_def)
qed

subsection \<open>The angle\<close>

lemma wrap_down_id: "angle \<le> 360 \<Longrightarrow> wrap_down angle = angle"
  by (simp add: wrap_down.simps)

lemma wrap_down_range: "360 < angle \<Longrightarrow> 0 < wrap_down angle \<and> wrap_down angle \<le> 360"
proof (induction angle rule: wrap_down.induct)
  case (1 angle)
  show ?case
  proof (cases "360 < angle - 360")
    case True
    with 1 show ?thesis by (simp add: wrap_down.simps [of angle])
  next
    case False
    with 1 show ?thesis
      by (simp add: wrap_down.simps [of angle] wrap_down_id)
  qed
qed

lemma wrap_down_cong: "\<exists>k::nat. wrap_down angle = angle - 360 * real k"
proof (induction angle rule: wrap_down.induct)
  case (1 angle)
  show ?case
  proof (cases "360 < angle")
    case True
    with 1 obtain k :: nat where "wrap_down (angle - 360) = angle - 360 - 360 * real k"
      by blast
    with True have "wrap_down angle = angle - 360 * real (Suc k)"
      by (simp add: wrap_down.simps [of angle])
    then show ?thesis by blast
  next
    case False
    then have "wrap_down angle = angle - 360 * real (0::nat)"
      by (simp add: wrap_down_id)
    then show ?thesis by blast
  qed
qed

lemma wrap_up_id: "0 \<le> angle \<Longrightarrow> wrap_up angle = angle"
  by (simp add: wrap_up.simps)

lemma wrap_up_range: "angle < 0 \<Longrightarrow> 0 \<le> wrap_up angle \<and> wrap_up angle < 360"
proof (induction angle rule: wrap_up.induct)
  case (1 angle)
  show ?case
  proof (cases "angle + 360 < 0")
    case True
    with 1 show ?thesis by (simp add: wrap_up.simps [of angle])
  next
    case False
    with 1 show ?thesis
      by (simp add: wrap_up.simps [of angle] wrap_up_id)
  qed
qed

lemma wrap_up_cong: "\<exists>k::nat. wrap_up angle = angle + 360 * real k"
proof (induction angle rule: wrap_up.induct)
  case (1 angle)
  show ?case
  proof (cases "angle < 0")
    case True
    with 1 obtain k :: nat where "wrap_up (angle + 360) = angle + 360 + 360 * real k"
      by blast
    with True have "wrap_up angle = angle + 360 * real (Suc k)"
      by (simp add: wrap_up.simps [of angle])
    then show ?thesis by blast
  next
    case False
    then have "wrap_up angle = angle + 360 * real (0::nat)"
      by (simp add: wrap_up_id)
    then show ?thesis by blast
  qed
qed

lemma wrap_angle_cases:
  "wrap_angle angle =
     (if 360 < angle then wrap_down angle else if angle < 0 then wrap_up angle else angle)"
proof -
  have "360 < angle \<Longrightarrow> wrap_up (wrap_down angle) = wrap_down angle"
    using wrap_down_range [of angle] by (simp add: wrap_up_id)
  then show ?thesis
    by (simp add: wrap_angle_def wrap_down_id wrap_up_id)
qed

lemma wrap_angle_range: "0 \<le> wrap_angle angle \<and> wrap_angle angle \<le> 360"
  using wrap_down_range [of angle] wrap_up_range [of angle]
  by (auto simp: wrap_angle_cases)

lemma wrap_angle_congruent: "\<exists>k::int. wrap_angle angle = angle + 360 * real_of_int k"
proof -
  obtain d :: nat where d: "wrap_down angle = angle - 360 * real d"
    using wrap_down_cong by blast
  obtain u :: nat where u: "wrap_up angle = angle + 360 * real u"
    using wrap_up_cong by blast
  have "wrap_down angle = angle + 360 * real_of_int (- int d)"
    using d by simp
  moreover have "wrap_up angle = angle + 360 * real_of_int (int u)"
    using u by simp
  moreover have "angle = angle + 360 * real_of_int 0"
    by simp
  ultimately show ?thesis
    unfolding wrap_angle_cases by (metis (full_types))
qed

lemma wrap_angle_360_iff:
  "wrap_angle angle = 360 \<longleftrightarrow> 0 < angle \<and> (\<exists>j::int. angle = 360 * real_of_int j)"
proof
  assume w: "wrap_angle angle = 360"
  obtain k :: int where k: "wrap_angle angle = angle + 360 * real_of_int k"
    using wrap_angle_congruent by blast
  have "0 < angle"
    using w wrap_up_range [of angle] wrap_down_range [of angle]
    by (simp add: wrap_angle_cases split: if_splits)
  moreover from w k have "angle = 360 * real_of_int (1 - k)"
    by simp
  ultimately show "0 < angle \<and> (\<exists>j::int. angle = 360 * real_of_int j)"
    by blast
next
  assume "0 < angle \<and> (\<exists>j::int. angle = 360 * real_of_int j)"
  then obtain j :: int where p: "0 < angle" and j: "angle = 360 * real_of_int j"
    by blast
  obtain k :: int where k: "wrap_angle angle = angle + 360 * real_of_int k"
    using wrap_angle_congruent by blast
  have e: "wrap_angle angle = 360 * real_of_int (j + k)"
    using j k by simp
  have "0 < wrap_angle angle"
    using p wrap_down_range [of angle] by (simp add: wrap_angle_cases)
  with e wrap_angle_range [of angle]
  have "0 < real_of_int (j + k)" and "real_of_int (j + k) \<le> 1"
    by simp_all
  then have "j + k = 1" by linarith
  with e show "wrap_angle angle = 360" by simp
qed

text \<open>
  C3. For every real angle the two loops end, and the angle they leave lies in the
  closed interval from 0 to 360 and differs from the input by a multiple of 360. It is
  360 exactly when the input is a positive multiple of 360, and below 360 otherwise.
\<close>

theorem wrap_angle_closed_range:
  "0 \<le> wrap_angle angle \<and> wrap_angle angle \<le> 360
   \<and> (\<exists>k::int. wrap_angle angle = angle + 360 * real_of_int k)
   \<and> (wrap_angle angle = 360 \<longleftrightarrow> 0 < angle \<and> (\<exists>j::int. angle = 360 * real_of_int j))"
  using wrap_angle_range [of angle] wrap_angle_congruent [of angle] wrap_angle_360_iff [of angle]
  by blast

text \<open>An angle of 330 degrees turned by 30 stays at 360.\<close>

theorem wrap_angle_half_open_counterexample:
  "\<not> (0 \<le> wrap_angle (330 + 30) \<and> wrap_angle (330 + 30) < 360)"
  by (simp add: wrap_angle_cases)

subsection \<open>The direction\<close>

lemma dir_minus: "{r \<in> {0..<10}. dir_of r = - 1} = {6, 7, 8, 9}"
  by (auto simp: dir_of_def)

lemma dir_plus: "{r \<in> {0..<10}. dir_of r = 1} = {0, 1, 2, 3, 4, 5}"
  by (auto simp: dir_of_def)

text \<open>
  C5. Of the ten values \<^verbatim>\<open>random(0, 10)\<close> can return, four give the direction \<open>-1\<close>
  and six give \<open>1\<close>.
\<close>

theorem dir_of_not_uniform:
  "card {r \<in> {0..<10}. dir_of r = - 1} = 4 \<and> card {r \<in> {0..<10}. dir_of r = 1} = 6"
  unfolding dir_minus dir_plus by simp

subsection \<open>Pulling a point towards the centre\<close>

lemma pull_within:
  "reachable ((4/5) ^ n * x) ((4/5) ^ n * y) \<Longrightarrow>
   \<exists>k\<le>n. \<exists>new. pull_towards_center reachable v x y evs
               = Some ((4/5) ^ k * x, (4/5) ^ k * y, evs @ new)
           \<and> reachable ((4/5) ^ k * x) ((4/5) ^ k * y)
           \<and> (\<forall>e\<in>set new. is_move_event e)"
proof (induction n arbitrary: x y evs)
  case 0
  then have "pull_towards_center reachable v x y evs = Some ((4/5) ^ 0 * x, (4/5) ^ 0 * y, evs @ [])"
    by (simp add: pull_towards_center.simps [of reachable v x y])
  with 0 show ?case by (metis empty_iff le_zero_eq list.set(1))
next
  case (Suc n)
  show ?case
  proof (cases "reachable x y")
    case True
    then have "pull_towards_center reachable v x y evs
               = Some ((4/5) ^ 0 * x, (4/5) ^ 0 * y, evs @ [])"
      by (simp add: pull_towards_center.simps [of reachable v x y])
    moreover from True have "reachable ((4/5) ^ 0 * x) ((4/5) ^ 0 * y)" by simp
    ultimately show ?thesis by (metis empty_iff le0 list.set(1))
  next
    case False
    let ?evs = "evs @ (if v > 3 then [Pulling_point (x * 0.8) (y * 0.8)] else [])"
    have step: "pull_towards_center reachable v x y evs
                = pull_towards_center reachable v (x * 0.8) (y * 0.8) ?evs"
      using False by (subst pull_towards_center.simps) simp
    have eq: "(4/5) ^ j * (z * 0.8) = (4/5) ^ Suc j * z" for j and z :: real
      by simp
    have "reachable ((4/5) ^ n * (x * 0.8)) ((4/5) ^ n * (y * 0.8))"
      using Suc.prems by (simp only: eq)
    from Suc.IH [OF this, of ?evs]
    obtain k new where k: "k \<le> n"
      and r: "pull_towards_center reachable v (x * 0.8) (y * 0.8) ?evs
               = Some ((4/5) ^ k * (x * 0.8), (4/5) ^ k * (y * 0.8), ?evs @ new)"
      and p: "reachable ((4/5) ^ k * (x * 0.8)) ((4/5) ^ k * (y * 0.8))"
      and e: "\<forall>e\<in>set new. is_move_event e"
      by blast
    let ?new = "(if v > 3 then [Pulling_point (x * 0.8) (y * 0.8)] else []) @ new"
    have "pull_towards_center reachable v x y evs
           = Some ((4/5) ^ Suc k * x, (4/5) ^ Suc k * y, evs @ ?new)"
      using step r by (simp only: eq append_assoc)
    moreover have "reachable ((4/5) ^ Suc k * x) ((4/5) ^ Suc k * y)"
      using p by (simp only: eq)
    moreover have "\<forall>e\<in>set ?new. is_move_event e"
      using e by auto
    moreover have "Suc k \<le> Suc n" using k by simp
    ultimately show ?thesis by blast
  qed
qed

lemma scale_into_disc:
  fixes \<rho> D :: real
  assumes "0 < \<rho>"
  shows "\<exists>n. (4/5) ^ n * D \<le> \<rho>"
proof (cases "D \<le> 0")
  case True
  with assms have "(4/5) ^ 0 * D \<le> \<rho>" by simp
  then show ?thesis by blast
next
  case False
  then have "0 < \<rho> / D" using assms by simp
  then obtain n where "(4/5 :: real) ^ n < \<rho> / D"
    using real_arch_pow_inv [of "\<rho> / D" "4/5"] by auto
  with False have "(4/5) ^ n * D \<le> \<rho>"
    by (simp add: pos_less_divide_eq)
  then show ?thesis by blast
qed

lemma in_disc:
  fixes x y c d \<rho> :: real
  assumes "0 \<le> c" "c * sqrt (x\<^sup>2 + y\<^sup>2) \<le> \<rho>"
  shows "(c * x)\<^sup>2 + (c * y)\<^sup>2 \<le> \<rho>\<^sup>2"
proof -
  have "(c * x)\<^sup>2 + (c * y)\<^sup>2 = (c * sqrt (x\<^sup>2 + y\<^sup>2))\<^sup>2"
    by (simp add: power_mult_distrib distrib_left)
  also have "\<dots> \<le> \<rho>\<^sup>2"
    using assms by (intro power_mono) simp_all
  finally show ?thesis .
qed

text \<open>
  C8. When the probe reaches every point of a disc of radius \<open>\<rho> > 0\<close> around the
  centre, the loop ends for every point \<open>(x, y)\<close>, after \<open>k\<close> rounds at the reachable
  point \<open>(0.8 ^ k * x, 0.8 ^ k * y)\<close>, and \<open>k\<close> is at most any \<open>n\<close> with
  \<open>0.8 ^ n * D \<le> \<rho>\<close>, where \<open>D\<close> bounds the distance of the point from the centre;
  such an \<open>n\<close> exists for every \<open>D\<close>.
\<close>

theorem pull_towards_center_terminates:
  assumes "0 < \<rho>" and "\<forall>x y. x\<^sup>2 + y\<^sup>2 \<le> \<rho>\<^sup>2 \<longrightarrow> reachable x y"
  shows "\<exists>k new. pull_towards_center reachable v x y evs
                   = Some ((4/5) ^ k * x, (4/5) ^ k * y, evs @ new)
          \<and> reachable ((4/5) ^ k * x) ((4/5) ^ k * y)
          \<and> (\<forall>D n. sqrt (x\<^sup>2 + y\<^sup>2) \<le> D \<and> (4/5) ^ n * D \<le> \<rho> \<longrightarrow> k \<le> n)
          \<and> (\<forall>D. \<exists>n. (4/5) ^ n * D \<le> \<rho>)"
proof -
  let ?P = "\<lambda>n. reachable ((4/5) ^ n * x) ((4/5) ^ n * y)"
  have bound: "?P n" if "sqrt (x\<^sup>2 + y\<^sup>2) \<le> D" and "(4/5) ^ n * D \<le> \<rho>" for D n
  proof -
    have "(4/5) ^ n * sqrt (x\<^sup>2 + y\<^sup>2) \<le> (4/5) ^ n * D"
      using that(1) by (intro mult_left_mono) simp_all
    with that(2) have "(4/5) ^ n * sqrt (x\<^sup>2 + y\<^sup>2) \<le> \<rho>" by linarith
    then have "((4/5) ^ n * x)\<^sup>2 + ((4/5) ^ n * y)\<^sup>2 \<le> \<rho>\<^sup>2"
      by (intro in_disc) simp_all
    with assms(2) show ?thesis by blast
  qed
  obtain n where "(4/5) ^ n * sqrt (x\<^sup>2 + y\<^sup>2) \<le> \<rho>"
    using scale_into_disc [OF assms(1)] by blast
  then have ex: "?P n" by (intro bound [of "sqrt (x\<^sup>2 + y\<^sup>2)"]) simp_all
  define n0 where "n0 = (LEAST n. ?P n)"
  have n0: "?P n0" unfolding n0_def using ex by (rule LeastI)
  have least: "n0 \<le> j" if "?P j" for j
    unfolding n0_def using that by (rule Least_le)
  obtain k new where k: "k \<le> n0"
    and r: "pull_towards_center reachable v x y evs
             = Some ((4/5) ^ k * x, (4/5) ^ k * y, evs @ new)"
    and p: "?P k"
    using pull_within [of reachable n0 x y v evs, OF n0] by blast
  have "k \<le> j" if "sqrt (x\<^sup>2 + y\<^sup>2) \<le> D" and "(4/5) ^ j * D \<le> \<rho>" for D j
    using k least [OF bound [OF that]] by linarith
  with r p scale_into_disc [OF assms(1)] show ?thesis by blast
qed

text \<open>
  On a delta bed of probe radius 100 the point (300, 400), at distance 500, is pulled
  in eight times: seven rounds leave it outside.
\<close>

theorem pull_towards_center_terminates_witness:
  "(0::real) < 100
   \<and> pull_towards_center (delta_reachable 100) 0 300 400 []
       = Some ((4/5) ^ 8 * 300, (4/5) ^ 8 * 400, [])
   \<and> delta_reachable 100 ((4/5) ^ 8 * 300) ((4/5) ^ 8 * 400)
   \<and> \<not> delta_reachable 100 ((4/5) ^ 7 * 300) ((4/5) ^ 7 * 400)"
proof -
  have h1: "(0::real) < 100" by simp
  have h2: "\<forall>x y. x\<^sup>2 + y\<^sup>2 \<le> 100\<^sup>2 \<longrightarrow> delta_reachable 100 x y"
    by (simp add: delta_reachable_def)
  have "pull_towards_center (delta_reachable 100) 0 300 400 []
       = Some ((4/5) ^ 8 * 300, (4/5) ^ 8 * 400, [])"
    by (subst pull_towards_center.simps,
        simp add: delta_reachable_def power2_eq_square power_divide)+
  with h1 pull_towards_center_terminates [OF h1 h2, of 0 300 400 "[]"]
  show ?thesis by (simp add: delta_reachable_def power2_eq_square power_divide)
qed

subsection \<open>The movement ends\<close>

lemma pull_Some:
  assumes "centre_reachable m"
  shows "\<exists>x' y' new. pull_towards_center (position_is_reachable_by_probe m) v x y evs
                       = Some (x', y', evs @ new) \<and> (\<forall>e\<in>set new. is_move_event e)"
proof -
  obtain \<rho> where \<rho>: "0 < \<rho>"
    and d: "\<forall>x y. x\<^sup>2 + y\<^sup>2 \<le> \<rho>\<^sup>2 \<longrightarrow> position_is_reachable_by_probe m x y"
    using assms unfolding centre_reachable_def by blast
  obtain n where "(4/5) ^ n * sqrt (x\<^sup>2 + y\<^sup>2) \<le> \<rho>"
    using scale_into_disc [OF \<rho>] by blast
  then have "((4/5) ^ n * x)\<^sup>2 + ((4/5) ^ n * y)\<^sup>2 \<le> \<rho>\<^sup>2"
    by (intro in_disc) simp_all
  with d have "position_is_reachable_by_probe m ((4/5) ^ n * x) ((4/5) ^ n * y)"
    by blast
  from pull_within [of "position_is_reachable_by_probe m" n x y v evs, OF this]
  show ?thesis by blast
qed

lemma leg_step_unfold:
  "leg_step m cfg dir radius (angle, ri, evs) =
    (let a = wrap_angle (angle + (if schizoid_flag cfg then real_of_int dir * 2 * 72
                                   else real_of_int dir * real_of_int (random m ri 25 45)));
         X = X_probe_location cfg - probe_offset_X m + cos (RADIANS a) * radius;
         Y = Y_probe_location cfg - probe_offset_Y m + sin (RADIANS a) * radius
     in case (if MECH_DELTA m
              then pull_towards_center (position_is_reachable_by_probe m) (verbose_level cfg)
                     X Y []
              else Some (LIMIT X (X_MIN_BED m) (X_MAX_BED m),
                         LIMIT Y (Y_MIN_BED m) (Y_MAX_BED m), []))
        of None \<Rightarrow> None
         | Some (x, y, pulled) \<Rightarrow>
             Some (a, if schizoid_flag cfg then ri else Suc ri,
                   evs @ pulled @ (if verbose_level cfg > 3 then [Going_to x y] else [])
                       @ [Do_blocking_move_to_xy x y]))"
  by (simp add: leg_step_def Let_def)

lemma leg_step_Some:
  assumes "MECH_DELTA m \<longrightarrow> centre_reachable m"
  shows "\<exists>a r new. leg_step m cfg dir radius (angle, ri, evs) = Some (a, r, evs @ new)
           \<and> (\<forall>e\<in>set new. is_move_event e)"
proof -
  define a where "a = wrap_angle (angle + (if schizoid_flag cfg then real_of_int dir * 2 * 72
                                   else real_of_int dir * real_of_int (random m ri 25 45)))"
  define X where "X = X_probe_location cfg - probe_offset_X m + cos (RADIANS a) * radius"
  define Y where "Y = Y_probe_location cfg - probe_offset_Y m + sin (RADIANS a) * radius"
  have "\<exists>x y pulled.
          (if MECH_DELTA m
           then pull_towards_center (position_is_reachable_by_probe m) (verbose_level cfg)
                  X Y []
           else Some (LIMIT X (X_MIN_BED m) (X_MAX_BED m),
                      LIMIT Y (Y_MIN_BED m) (Y_MAX_BED m), [])) = Some (x, y, pulled)
          \<and> (\<forall>e\<in>set pulled. is_move_event e)"
  proof (cases "MECH_DELTA m")
    case True
    with assms have "centre_reachable m" by simp
    from pull_Some [OF this, of "verbose_level cfg" X Y "[]"] True
    show ?thesis by simp
  next
    case False
    then show ?thesis by simp
  qed
  then obtain x y pulled where
    p: "(if MECH_DELTA m
           then pull_towards_center (position_is_reachable_by_probe m) (verbose_level cfg)
                  X Y []
           else Some (LIMIT X (X_MIN_BED m) (X_MAX_BED m),
                      LIMIT Y (Y_MIN_BED m) (Y_MAX_BED m), [])) = Some (x, y, pulled)"
    and e: "\<forall>e\<in>set pulled. is_move_event e"
    by blast
  let ?new = "pulled @ (if verbose_level cfg > 3 then [Going_to x y] else [])
                       @ [Do_blocking_move_to_xy x y]"
  have "leg_step m cfg dir radius (angle, ri, evs)
         = Some (a, if schizoid_flag cfg then ri else Suc ri, evs @ ?new)"
    unfolding leg_step_unfold Let_def a_def [symmetric] X_def [symmetric] Y_def [symmetric] p
    by simp
  moreover have "\<forall>e\<in>set ?new. is_move_event e"
    using e by auto
  ultimately show ?thesis by blast
qed

lemma leg_loop_Some:
  assumes "MECH_DELTA m \<longrightarrow> centre_reachable m"
  shows "\<exists>a r new. leg_loop m cfg dir radius l (angle, ri, evs) = Some (a, r, evs @ new)
           \<and> (\<forall>e\<in>set new. is_move_event e)"
proof (induction "n_legs cfg - 1 - l" arbitrary: l angle ri evs)
  case 0
  then have "\<not> l < n_legs cfg - 1" by linarith
  then have "leg_loop m cfg dir radius l (angle, ri, evs) = Some (angle, ri, evs @ [])"
    by (simp add: leg_loop.simps [of m cfg dir radius l])
  then show ?case by (metis empty_iff list.set(1))
next
  case (Suc d)
  then have l: "l < n_legs cfg - 1" and d: "d = n_legs cfg - 1 - Suc l"
    by linarith+
  obtain a r new where s: "leg_step m cfg dir radius (angle, ri, evs) = Some (a, r, evs @ new)"
    and e: "\<forall>e\<in>set new. is_move_event e"
    using leg_step_Some [OF assms] by blast
  obtain a' r' new' where
    s': "leg_loop m cfg dir radius (Suc l) (a, r, evs @ new) = Some (a', r', (evs @ new) @ new')"
    and e': "\<forall>e\<in>set new'. is_move_event e"
    using Suc.hyps(1) [OF d] by blast
  have "leg_loop m cfg dir radius l (angle, ri, evs) = Some (a', r', evs @ (new @ new'))"
    using l s s' by (simp add: leg_loop.simps [of m cfg dir radius l])
  moreover have "\<forall>e\<in>set (new @ new'). is_move_event e"
    using e e' by auto
  ultimately show ?case by blast
qed

lemma move_pattern_Some:
  assumes "MECH_DELTA m \<longrightarrow> centre_reachable m"
  shows "\<exists>ri' evs. move_pattern m cfg ri = Some (ri', evs) \<and> (\<forall>e\<in>set evs. is_move_event e)"
proof (cases "n_legs cfg \<noteq> 0")
  case True
  define dir where "dir = dir_of (random m ri 0 10)"
  define angle where "angle = real_of_int (random m (ri + 1) 0 360)"
  define radius where "radius = real_of_int
             (if MECH_DELTA m
              then random m (ri + 2) (int_cast (0.1250000000 * probe_radius m))
                                     (int_cast (0.3333333333 * probe_radius m))
              else random m (ri + 2) 5 (int_cast (0.125 * min (X_MAX_BED m) (Y_MAX_BED m))))"
  let ?start = "if verbose_level cfg > 3 then [Starting_radius radius angle dir] else []"
  obtain a r new where
    l: "leg_loop m cfg dir radius 0 (angle, ri + 3, ?start) = Some (a, r, ?start @ new)"
    and e: "\<forall>e\<in>set new. is_move_event e"
    using leg_loop_Some [OF assms] by blast
  have "move_pattern m cfg ri = Some (r, ?start @ new)"
    using True l
    unfolding move_pattern_def Let_def dir_def [symmetric] angle_def [symmetric]
      radius_def [symmetric]
    by simp
  moreover have "\<forall>e\<in>set (?start @ new). is_move_event e"
    using e by auto
  ultimately show ?thesis by blast
next
  case False
  then show ?thesis by (simp add: move_pattern_def)
qed

subsection \<open>The statistics of one pass\<close>

lemma fold_index_sum:
  "k \<le> length xs \<Longrightarrow>
   fold (\<lambda>j s. s + f (xs ! j)) [0..<k] a = a + sum_list (map f (take k xs))"
proof (induction k)
  case 0
  show ?case by simp
next
  case (Suc k)
  then have "take (Suc k) xs = take k xs @ [xs ! k]"
    by (simp add: take_Suc_conv_app_nth)
  with Suc show ?case by (simp add: add.assoc)
qed

lemma samples_Suc: "samples m (Suc k) = samples m k @ [the (check_pt m (Suc k))]"
  by (simp add: samples_def)

lemma length_samples: "length (samples m k) = k"
  by (simp add: samples_def)

lemma NOMORE_min: "NOMORE v z = min z v"
  by (simp add: NOMORE_def min_def)

lemma NOLESS_max: "NOLESS v z = max z v"
  by (simp add: NOLESS_def max_def)

lemma min_of_snoc: "min_of (xs @ [z]) = NOMORE (min_of xs) z"
proof -
  have "insert 99999.9 (set (xs @ [z])) = insert z (insert 99999.9 (set xs))"
    by auto
  then have "min_of (xs @ [z]) = Min (insert z (insert 99999.9 (set xs)))"
    by (simp only: min_of_def)
  also have "\<dots> = min z (Min (insert 99999.9 (set xs)))"
    by (rule Min_insert) simp_all
  finally show ?thesis
    by (simp only: NOMORE_min min_of_def)
qed

lemma max_of_snoc: "max_of (xs @ [z]) = NOLESS (max_of xs) z"
proof -
  have "insert (- 99999.9) (set (xs @ [z])) = insert z (insert (- 99999.9) (set xs))"
    by auto
  then have "max_of (xs @ [z]) = Max (insert z (insert (- 99999.9) (set xs)))"
    by (simp only: max_of_def)
  also have "\<dots> = max z (Max (insert (- 99999.9) (set xs)))"
    by (rule Max_insert) simp_all
  finally show ?thesis
    by (simp only: NOLESS_max max_of_def)
qed

lemma accumulate_stats:
  assumes n: "n < length (sample_set st)"
    and t: "take (Suc n) (sample_set st) = samples m (Suc n)"
    and lo: "min_v st = min_of (samples m n)"
    and hi: "max_v st = max_of (samples m n)"
    and g: "probing_good st"
  shows "stats_hold m (Suc n) (accumulate cfg n st)"
proof -
  let ?ss = "sample_set st"
  have z: "?ss ! n = the (check_pt m (Suc n))"
  proof -
    have "?ss ! n = take (Suc n) ?ss ! n" by simp
    also have "\<dots> = samples m (Suc n) ! n" by (simp only: t)
    also have "\<dots> = the (check_pt m (Suc n))" by (simp add: samples_def nth_append)
    finally show ?thesis .
  qed
  have s1: "fold (\<lambda>j s. s + ?ss ! j) [0..<Suc n] 0 = sum_list (samples m (Suc n))"
    using n fold_index_sum [of "Suc n" ?ss "\<lambda>x. x" 0] t by simp
  have s2: "fold (\<lambda>j s. s + sq (?ss ! j - c)) [0..<Suc n] 0
            = sum_list (map (\<lambda>x. (x - c)\<^sup>2) (samples m (Suc n)))" for c
    using n fold_index_sum [of "Suc n" ?ss "\<lambda>x. sq (x - c)" 0] t
    by (simp add: sq_def power2_eq_square)
  have mean: "mean (accumulate cfg n st) = mean_of (samples m (Suc n))"
    by (simp add: accumulate_def Let_def s1 mean_of_def length_samples del: upt_Suc)
  have sigma: "sigma (accumulate cfg n st) = sigma_of (samples m (Suc n))"
    by (simp add: accumulate_def Let_def s1 s2 sigma_of_def mean_of_def length_samples
        del: upt_Suc)
  have "min_v (accumulate cfg n st) = min_of (samples m (Suc n))"
    by (simp add: accumulate_def Let_def lo z samples_Suc min_of_snoc del: upt_Suc)
  moreover have "max_v (accumulate cfg n st) = max_of (samples m (Suc n))"
    by (simp add: accumulate_def Let_def hi z samples_Suc max_of_snoc del: upt_Suc)
  moreover have "sample_set (accumulate cfg n st) = ?ss"
    by (simp add: accumulate_def Let_def)
  moreover have "probing_good (accumulate cfg n st)"
    using g by (simp add: accumulate_def Let_def)
  ultimately show ?thesis
    using mean sigma t by (simp add: stats_hold_def)
qed


subsection \<open>One pass of the sample loop\<close>

lemma move_is_loop_event: "is_move_event e \<Longrightarrow> is_loop_event e"
  by (cases e) simp_all

lemma move_is_no_probe_read: "is_move_event e \<Longrightarrow> \<not> is_probe_read e"
  by (cases e) simp_all

lemma no_probe_reads: "\<forall>e\<in>set evs. is_move_event e \<Longrightarrow> filter is_probe_read evs = []"
  by (simp add: move_is_no_probe_read)

lemma sample_iteration_probing_good:
  "sample_iteration m cfg n st = Some st' \<Longrightarrow> probing_good st' \<longleftrightarrow> check_pt m (Suc n) \<noteq> None"
  by (auto simp: sample_iteration_def accumulate_def Let_def split: option.splits)

lemma sample_iteration_bad:
  assumes "MECH_DELTA m \<longrightarrow> centre_reachable m" and "check_pt m (Suc n) = None"
  shows "\<exists>ri evs. sample_iteration m cfg n st
                    = Some (st \<lparr> rnd_calls := ri, out := out st @ evs, probing_good := False \<rparr>)
           \<and> (\<forall>e\<in>set evs. is_loop_event e) \<and> length (filter is_probe_read evs) = 1"
proof -
  obtain ri moves where mv: "move_pattern m cfg (rnd_calls st) = Some (ri, moves)"
    and e: "\<forall>e\<in>set moves. is_move_event e"
    using move_pattern_Some [OF assms(1)] by blast
  let ?evs = "(if HAS_LCD m then [Lcd_point (n + 1) (n_samples cfg)] else []) @ moves
              @ [Check_pt (X_probe_location cfg) (Y_probe_location cfg) (raise_after cfg) 0]"
  have "sample_iteration m cfg n st
         = Some (st \<lparr> rnd_calls := ri, out := out st @ ?evs, probing_good := False \<rparr>)"
    using mv assms(2) by (simp add: sample_iteration_def)
  moreover have "\<forall>e\<in>set ?evs. is_loop_event e"
    using e by (auto simp: move_is_loop_event)
  moreover have "length (filter is_probe_read ?evs) = 1"
    using no_probe_reads [OF e] by simp
  ultimately show ?thesis by blast
qed

lemma sample_iteration_good:
  assumes "MECH_DELTA m \<longrightarrow> centre_reachable m"
    and z: "check_pt m (Suc n) = Some z"
    and n: "n < length (sample_set st)"
    and inv: "stats_hold m n st"
  shows "\<exists>st' evs. sample_iteration m cfg n st = Some st' \<and> stats_hold m (Suc n) st'
           \<and> length (sample_set st') = length (sample_set st)
           \<and> out st' = out st @ evs
           \<and> (\<forall>e\<in>set evs. is_loop_event e) \<and> length (filter is_probe_read evs) = 1"
proof -
  obtain ri moves where mv: "move_pattern m cfg (rnd_calls st) = Some (ri, moves)"
    and e: "\<forall>e\<in>set moves. is_move_event e"
    using move_pattern_Some [OF assms(1)] by blast
  let ?evs = "(if HAS_LCD m then [Lcd_point (n + 1) (n_samples cfg)] else []) @ moves
              @ [Check_pt (X_probe_location cfg) (Y_probe_location cfg) (raise_after cfg) 0]"
  define st1 where "st1 = st \<lparr> rnd_calls := ri, out := out st @ ?evs,
                               sample_set := (sample_set st)[n := z], probing_good := True \<rparr>"
  have it: "sample_iteration m cfg n st = Some (accumulate cfg n st1)"
    using mv z by (simp add: sample_iteration_def st1_def)
  have "take (Suc n) (sample_set st1) = take n (sample_set st) @ [z]"
    using n by (simp add: st1_def take_Suc_conv_app_nth)
  also have "\<dots> = samples m (Suc n)"
    using inv z by (simp add: stats_hold_def samples_Suc)
  finally have t: "take (Suc n) (sample_set st1) = samples m (Suc n)" .
  have "stats_hold m (Suc n) (accumulate cfg n st1)"
  proof (rule accumulate_stats)
    show "n < length (sample_set st1)" using n by (simp add: st1_def)
    show "take (Suc n) (sample_set st1) = samples m (Suc n)" by (rule t)
    show "min_v st1 = min_of (samples m n)" using inv by (simp add: st1_def stats_hold_def)
    show "max_v st1 = max_of (samples m n)" using inv by (simp add: st1_def stats_hold_def)
    show "probing_good st1" by (simp add: st1_def)
  qed
  moreover have "length (sample_set (accumulate cfg n st1)) = length (sample_set st)"
    by (simp add: accumulate_def Let_def st1_def)
  moreover obtain pr where o: "out (accumulate cfg n st1) = out st @ (?evs @ pr)"
    and pr: "\<forall>e\<in>set pr. is_loop_event e" and np: "filter is_probe_read pr = []"
    by (simp add: accumulate_def Let_def st1_def)
  moreover have "\<forall>e\<in>set (?evs @ pr). is_loop_event e"
    using e pr by (auto simp: move_is_loop_event)
  moreover have "length (filter is_probe_read (?evs @ pr)) = 1"
    using no_probe_reads [OF e] np by simp
  ultimately show ?thesis using it by blast
qed

subsection \<open>The sample loop\<close>

lemma iterations_good:
  assumes "MECH_DELTA m \<longrightarrow> centre_reachable m"
  shows "(\<forall>j. n \<le> j \<and> j < n + k \<longrightarrow> check_pt m (Suc j) \<noteq> None) \<Longrightarrow>
         n + k \<le> length (sample_set st) \<Longrightarrow> stats_hold m n st \<Longrightarrow>
         \<exists>st' evs. iterations m cfg n k st = Some st' \<and> stats_hold m (n + k) st'
           \<and> length (sample_set st') = length (sample_set st)
           \<and> out st' = out st @ evs
           \<and> (\<forall>e\<in>set evs. is_loop_event e) \<and> length (filter is_probe_read evs) = k"
proof (induction k arbitrary: n st)
  case 0
  then have "iterations m cfg n 0 st = Some st \<and> stats_hold m (n + 0) st
           \<and> length (sample_set st) = length (sample_set st)
           \<and> out st = out st @ []
           \<and> (\<forall>e\<in>set []. is_loop_event e) \<and> length (filter is_probe_read []) = 0"
    by simp
  then show ?case by blast
next
  case (Suc k)
  have "check_pt m (Suc n) \<noteq> None"
    using Suc.prems(1) [rule_format, of n] by simp
  then obtain z where z: "check_pt m (Suc n) = Some z"
    by blast
  from Suc.prems(2) have n: "n < length (sample_set st)" by simp
  obtain st1 evs1 where it: "sample_iteration m cfg n st = Some st1"
    and inv1: "stats_hold m (Suc n) st1"
    and len1: "length (sample_set st1) = length (sample_set st)"
    and out1: "out st1 = out st @ evs1"
    and ev1: "\<forall>e\<in>set evs1. is_loop_event e"
    and rd1: "length (filter is_probe_read evs1) = 1"
    using sample_iteration_good [OF assms z n Suc.prems(3)] by blast
  have rest: "\<forall>j. Suc n \<le> j \<and> j < Suc n + k \<longrightarrow> check_pt m (Suc j) \<noteq> None"
    using Suc.prems(1) by simp
  have len: "Suc n + k \<le> length (sample_set st1)"
    using Suc.prems(2) len1 by simp
  obtain st2 evs2 where it2: "iterations m cfg (Suc n) k st1 = Some st2"
    and inv2: "stats_hold m (Suc n + k) st2"
    and len2: "length (sample_set st2) = length (sample_set st1)"
    and out2: "out st2 = out st1 @ evs2"
    and ev2: "\<forall>e\<in>set evs2. is_loop_event e"
    and rd2: "length (filter is_probe_read evs2) = k"
    using Suc.IH [OF rest len inv1] by blast
  have "iterations m cfg n (Suc k) st = Some st2"
    using it it2 by simp
  moreover have "stats_hold m (n + Suc k) st2" using inv2 by simp
  moreover have "length (sample_set st2) = length (sample_set st)"
    using len1 len2 by simp
  moreover have "out st2 = out st @ (evs1 @ evs2)" using out1 out2 by simp
  moreover have "\<forall>e\<in>set (evs1 @ evs2). is_loop_event e" using ev1 ev2 by auto
  moreover have "length (filter is_probe_read (evs1 @ evs2)) = Suc k"
    using rd1 rd2 by simp
  ultimately show ?case by blast
qed

lemma sample_loop_iterations:
  "(\<forall>j. n \<le> j \<and> j < n + k \<longrightarrow> check_pt m (Suc j) \<noteq> None) \<Longrightarrow>
   n + k \<le> n_samples cfg \<Longrightarrow>
   sample_loop m cfg n st =
     (case iterations m cfg n k st of
        None \<Rightarrow> None
      | Some st' \<Rightarrow> sample_loop m cfg (n + k) st')"
proof (induction k arbitrary: n st)
  case 0
  show ?case by simp
next
  case (Suc k)
  from Suc.prems(2) have n: "n < n_samples cfg" by simp
  have z: "check_pt m (Suc n) \<noteq> None"
    using Suc.prems(1) [rule_format, of n] by simp
  show ?case
  proof (cases "sample_iteration m cfg n st")
    case None
    with n show ?thesis by (simp add: sample_loop.simps [of m cfg n st])
  next
    case (Some st1)
    have g: "probing_good st1"
      using sample_iteration_probing_good [OF Some] z by simp
    have rest: "\<forall>j. Suc n \<le> j \<and> j < Suc n + k \<longrightarrow> check_pt m (Suc j) \<noteq> None"
      using Suc.prems(1) by simp
    have len: "Suc n + k \<le> n_samples cfg" using Suc.prems(2) by simp
    have "sample_loop m cfg n st = sample_loop m cfg (Suc n) st1"
      using n Some g by (simp add: sample_loop.simps [of m cfg n st])
    also have "\<dots> = (case iterations m cfg (Suc n) k st1 of
                         None \<Rightarrow> None
                       | Some st' \<Rightarrow> sample_loop m cfg (Suc n + k) st')"
      by (rule Suc.IH [OF rest len])
    finally show ?thesis using Some by (simp cong: option.case_cong)
  qed
qed

subsection \<open>What the loop writes\<close>

lemma sample_iteration_out:
  "sample_iteration m cfg n st = Some st' \<Longrightarrow> \<exists>evs. out st' = out st @ evs"
  by (auto simp: sample_iteration_def accumulate_def Let_def split: option.splits)

lemma iterations_out:
  "iterations m cfg n k st = Some st' \<Longrightarrow> \<exists>evs. out st' = out st @ evs"
proof (induction k arbitrary: n st)
  case 0
  then show ?case by simp
next
  case (Suc k)
  then obtain st1 where s: "sample_iteration m cfg n st = Some st1"
    and r: "iterations m cfg (Suc n) k st1 = Some st'"
    by (auto split: option.splits)
  from sample_iteration_out [OF s] Suc.IH [OF r] show ?case by auto
qed

lemma sample_iteration_Some:
  assumes "MECH_DELTA m \<longrightarrow> centre_reachable m"
  shows "\<exists>st'. sample_iteration m cfg n st = Some st'"
proof -
  obtain ri moves where "move_pattern m cfg (rnd_calls st) = Some (ri, moves)"
    using move_pattern_Some [OF assms] by blast
  then show ?thesis
    by (cases "check_pt m (Suc n)") (simp_all add: sample_iteration_def Let_def)
qed

lemma sample_loop_Some:
  assumes "MECH_DELTA m \<longrightarrow> centre_reachable m"
  shows "\<exists>st' evs. sample_loop m cfg n st = Some st' \<and> out st' = out st @ evs"
proof (induction "n_samples cfg - n" arbitrary: n st)
  case 0
  then have "\<not> n < n_samples cfg" by linarith
  then have "sample_loop m cfg n st = Some st \<and> out st = out st @ []"
    by (simp add: sample_loop.simps [of m cfg n st])
  then show ?case by blast
next
  case (Suc d)
  then have n: "n < n_samples cfg" and d: "d = n_samples cfg - Suc n"
    by linarith+
  obtain st1 where s: "sample_iteration m cfg n st = Some st1"
    using sample_iteration_Some [OF assms] by blast
  obtain evs1 where o1: "out st1 = out st @ evs1"
    using sample_iteration_out [OF s] by blast
  show ?case
  proof (cases "probing_good st1")
    case False
    with n s have "sample_loop m cfg n st = Some st1"
      by (simp add: sample_loop.simps [of m cfg n st])
    with o1 show ?thesis by blast
  next
    case True
    obtain st' evs where r: "sample_loop m cfg (Suc n) st1 = Some st'"
      and o: "out st' = out st1 @ evs"
      using Suc.hyps(1) [OF d] by blast
    from n s True r have "sample_loop m cfg n st = Some st'"
      by (simp add: sample_loop.simps [of m cfg n st])
    moreover have "out st' = out st @ (evs1 @ evs)" using o o1 by simp
    ultimately show ?thesis by blast
  qed
qed

lemma sample_iteration_progress:
  assumes s: "sample_iteration m cfg n st = Some st'"
    and z: "check_pt m (Suc n) \<noteq> None"
    and n: "n < length (sample_set st)"
    and v: "2 < verbose_level cfg"
  shows "Progress (Suc n) (n_samples cfg) (the (check_pt m (Suc n)))
           (Some (mean st', sigma st', min_v st', max_v st', max_v st' - min_v st'))
         \<in> set (out st')"
  using assms
  by (auto simp: sample_iteration_def accumulate_def Let_def split: option.splits)

lemma iterations_progress:
  assumes mv: "MECH_DELTA m \<longrightarrow> centre_reachable m"
  shows "(\<forall>j. n \<le> j \<and> j < n + k \<longrightarrow> check_pt m (Suc j) \<noteq> None) \<Longrightarrow>
         n + k \<le> length (sample_set st) \<Longrightarrow> stats_hold m n st \<Longrightarrow>
         iterations m cfg n k st = Some st' \<Longrightarrow>
         n < j \<Longrightarrow> j \<le> n + k \<Longrightarrow> 2 < verbose_level cfg \<Longrightarrow>
         progress_line m cfg j \<in> set (out st')"
proof (induction k arbitrary: n st)
  case 0
  then show ?case by simp
next
  case (Suc k)
  have "check_pt m (Suc n) \<noteq> None"
    using Suc.prems(1) [rule_format, of n] by simp
  then obtain z where z: "check_pt m (Suc n) = Some z" by blast
  from Suc.prems(2) have n: "n < length (sample_set st)" by simp
  obtain st1 where it: "sample_iteration m cfg n st = Some st1"
    and inv1: "stats_hold m (Suc n) st1"
    and len1: "length (sample_set st1) = length (sample_set st)"
    using sample_iteration_good [OF mv z n Suc.prems(3)] by blast
  have r: "iterations m cfg (Suc n) k st1 = Some st'"
    using Suc.prems(4) it by simp
  show ?case
  proof (cases "j = Suc n")
    case True
    have "Progress (Suc n) (n_samples cfg) (the (check_pt m (Suc n)))
           (Some (mean st1, sigma st1, min_v st1, max_v st1, max_v st1 - min_v st1))
         \<in> set (out st1)"
      using it z n Suc.prems(7) by (intro sample_iteration_progress) simp_all
    then have "progress_line m cfg (Suc n) \<in> set (out st1)"
      using inv1 by (simp add: progress_line_def stats_hold_def)
    moreover obtain evs where "out st' = out st1 @ evs"
      using iterations_out [OF r] by blast
    ultimately show ?thesis using True by simp
  next
    case False
    have rest: "\<forall>j. Suc n \<le> j \<and> j < Suc n + k \<longrightarrow> check_pt m (Suc j) \<noteq> None"
      using Suc.prems(1) by simp
    have len: "Suc n + k \<le> length (sample_set st1)"
      using Suc.prems(2) len1 by simp
    have "Suc n < j" "j \<le> Suc n + k"
      using False Suc.prems(5, 6) by simp_all
    from Suc.IH [OF rest len inv1 r this Suc.prems(7)] show ?thesis .
  qed
qed

subsection \<open>The whole run\<close>

lemma validate_passed:
  assumes "validate m req = (evs0, Inr cfg)"
  shows "evs0 = (if verbose_level cfg > 0 then [SERIAL_EM ''M48 Z-Probe Repeatability Test'']
                 else [])"
    and "4 \<le> n_samples cfg" and "n_samples cfg \<le> 50"
    and "0 \<le> verbose_level cfg" and "verbose_level cfg \<le> 4"
  using assms
  by (auto simp: validate_def Let_def WITHIN_def split: if_splits)

lemma run_test_unfold:
  "run_test m cfg evs0 =
    (case (if check_pt m 0 \<noteq> None
           then sample_loop m cfg 0 (loop_start m cfg (evs0 @ before_probe m cfg))
           else Some (initial_state m cfg (evs0 @ before_probe m cfg)))
     of None \<Rightarrow> None
      | Some st \<Rightarrow> Some (out st @ [STOW_PROBE] @ report_results m cfg st @ cleanup m))"
  by (simp add: run_test_def Let_def loop_start_def before_probe_def cleanup_def initial_state_def
      cong: option.case_cong)

lemma loop_start_holds:
  assumes "check_pt m 0 \<noteq> None"
  shows "stats_hold m 0 (loop_start m cfg evs)"
    and "length (sample_set (loop_start m cfg evs)) = n_samples cfg"
    and "out (loop_start m cfg evs) = evs @ [deployment_probe cfg, RandomSeed]"
  using assms
  by (simp_all add: loop_start_def initial_state_def stats_hold_def samples_def min_of_def
      max_of_def deployment_probe_def)

lemma run_all_good:
  assumes mv: "MECH_DELTA m \<longrightarrow> centre_reachable m"
    and good: "\<forall>j\<le>n_samples cfg. check_pt m j \<noteq> None"
  shows "\<exists>st loop.
           run_test m cfg evs0
             = Some (evs0 @ before_probe m cfg @ [deployment_probe cfg, RandomSeed] @ loop
                     @ [STOW_PROBE] @ report_results m cfg st @ cleanup m)
           \<and> iterations m cfg 0 (n_samples cfg) (loop_start m cfg (evs0 @ before_probe m cfg))
               = Some st
           \<and> stats_hold m (n_samples cfg) st
           \<and> (\<forall>e\<in>set loop. is_loop_event e)
           \<and> length (filter is_probe_read loop) = n_samples cfg"
proof -
  let ?st0 = "loop_start m cfg (evs0 @ before_probe m cfg)"
  have d: "check_pt m 0 \<noteq> None" using good by simp
  have g: "\<forall>j. 0 \<le> j \<and> j < 0 + n_samples cfg \<longrightarrow> check_pt m (Suc j) \<noteq> None"
    using good by (simp add: Suc_le_eq)
  have len: "0 + n_samples cfg \<le> length (sample_set ?st0)"
    using loop_start_holds(2) [OF d] by simp
  obtain st loop where it: "iterations m cfg 0 (n_samples cfg) ?st0 = Some st"
    and inv: "stats_hold m (0 + n_samples cfg) st"
    and o: "out st = out ?st0 @ loop"
    and ev: "\<forall>e\<in>set loop. is_loop_event e"
    and rd: "length (filter is_probe_read loop) = n_samples cfg"
    using iterations_good [OF mv g len loop_start_holds(1) [OF d]] by blast
  have "sample_loop m cfg 0 ?st0 = sample_loop m cfg (0 + n_samples cfg) st"
    using sample_loop_iterations [OF g, of cfg ?st0] it by simp
  then have sl: "sample_loop m cfg 0 ?st0 = Some st"
    by (simp add: sample_loop.simps [of m cfg "n_samples cfg"])
  have "run_test m cfg evs0
         = Some (evs0 @ before_probe m cfg @ [deployment_probe cfg, RandomSeed] @ loop
                 @ [STOW_PROBE] @ report_results m cfg st @ cleanup m)"
    using d sl o loop_start_holds(3) [OF d, of cfg "evs0 @ before_probe m cfg"]
    by (simp add: run_test_unfold)
  with it inv ev rd show ?thesis by auto
qed

lemma run_probe_fails:
  assumes mv: "MECH_DELTA m \<longrightarrow> centre_reachable m"
    and bad: "check_pt m i = None" and i: "i \<le> n_samples cfg"
    and good: "\<forall>j<i. check_pt m j \<noteq> None"
  shows "\<exists>loop.
           run_test m cfg evs0
             = Some (evs0 @ before_probe m cfg @ [deployment_probe cfg] @ loop
                     @ [STOW_PROBE] @ cleanup m)
           \<and> (\<forall>e\<in>set loop. is_loop_event e \<or> e = RandomSeed)
           \<and> length (filter is_probe_read loop) = i"
proof (cases i)
  case 0
  with bad have "run_test m cfg evs0
         = Some (evs0 @ before_probe m cfg @ [deployment_probe cfg] @ []
                 @ [STOW_PROBE] @ cleanup m)"
    by (simp add: run_test_unfold initial_state_def report_results_def deployment_probe_def)
  with 0 show ?thesis by force
next
  case (Suc k)
  let ?st0 = "loop_start m cfg (evs0 @ before_probe m cfg)"
  have d: "check_pt m 0 \<noteq> None" using good Suc by simp
  have g: "\<forall>j. 0 \<le> j \<and> j < 0 + k \<longrightarrow> check_pt m (Suc j) \<noteq> None"
    using good Suc by simp
  have k: "0 + k \<le> n_samples cfg" "k < n_samples cfg" using i Suc by simp_all
  have len: "0 + k \<le> length (sample_set ?st0)"
    using loop_start_holds(2) [OF d] k by simp
  obtain st loop where it: "iterations m cfg 0 k ?st0 = Some st"
    and o: "out st = out ?st0 @ loop"
    and ev: "\<forall>e\<in>set loop. is_loop_event e"
    and rd: "length (filter is_probe_read loop) = k"
    using iterations_good [OF mv g len loop_start_holds(1) [OF d]] by blast
  have none: "check_pt m (Suc k) = None" using bad Suc by simp
  obtain ri evs where last: "sample_iteration m cfg k st
                    = Some (st \<lparr> rnd_calls := ri, out := out st @ evs, probing_good := False \<rparr>)"
    and ev': "\<forall>e\<in>set evs. is_loop_event e" and rd': "length (filter is_probe_read evs) = 1"
    using sample_iteration_bad [OF mv none] by blast
  let ?st' = "st \<lparr> rnd_calls := ri, out := out st @ evs, probing_good := False \<rparr>"
  have "sample_loop m cfg 0 ?st0 = sample_loop m cfg (0 + k) st"
    using sample_loop_iterations [OF g k(1), of ?st0] it by simp
  also have "\<dots> = Some ?st'"
    using k(2) last by (simp add: sample_loop.simps [of m cfg k st])
  finally have sl: "sample_loop m cfg 0 ?st0 = Some ?st'" .
  have "run_test m cfg evs0
         = Some (evs0 @ before_probe m cfg @ [deployment_probe cfg] @ ([RandomSeed] @ loop @ evs)
                 @ [STOW_PROBE] @ cleanup m)"
    using d sl o loop_start_holds(3) [OF d, of cfg "evs0 @ before_probe m cfg"]
    by (simp add: run_test_unfold report_results_def)
  moreover have "\<forall>e\<in>set ([RandomSeed] @ loop @ evs). is_loop_event e \<or> e = RandomSeed"
    using ev ev' by auto
  moreover have "length (filter is_probe_read ([RandomSeed] @ loop @ evs)) = i"
    using rd rd' Suc by simp
  ultimately show ?thesis by blast
qed


lemma loop_event_not_final:
  assumes "\<forall>e\<in>set loop. is_loop_event e \<or> e = RandomSeed"
  shows "count_list loop STOW_PROBE = 0"
    and "count_list loop Restore_bed_leveling_state = 0"
    and "count_list loop Report_current_position = 0"
    and "filter is_report loop = []"
    and "SERIAL_EM s \<notin> set loop"
proof -
  have n: "e \<in> set loop \<Longrightarrow> \<not> is_loop_event e \<Longrightarrow> e = RandomSeed" for e
    using assms by blast
  show "count_list loop STOW_PROBE = 0"
    using n [of STOW_PROBE] by (auto simp: count_list_0_iff)
  show "count_list loop Restore_bed_leveling_state = 0"
    using n [of Restore_bed_leveling_state] by (auto simp: count_list_0_iff)
  show "count_list loop Report_current_position = 0"
    using n [of Report_current_position] by (auto simp: count_list_0_iff)
  show "SERIAL_EM s \<notin> set loop"
    using n [of "SERIAL_EM s"] by auto
  have "\<not> is_report e" if "e \<in> set loop" for e
    using assms that by (cases e) auto
  then show "filter is_report loop = []"
    by (simp add: filter_empty_conv)
qed

lemma run_reports:
  assumes mv: "MECH_DELTA m \<longrightarrow> centre_reachable m"
    and d: "check_pt m 0 \<noteq> None" and k: "k \<le> n_samples cfg"
    and good: "\<forall>j<k. check_pt m (Suc j) \<noteq> None"
  shows "\<exists>st tr.
           iterations m cfg 0 k (loop_start m cfg (evs0 @ before_probe m cfg)) = Some st
           \<and> sample_loop m cfg 0 (loop_start m cfg (evs0 @ before_probe m cfg))
               = sample_loop m cfg k st
           \<and> stats_hold m k st
           \<and> run_test m cfg evs0 = Some tr
           \<and> (\<forall>j. 0 < j \<and> j \<le> k \<and> 2 < verbose_level cfg \<longrightarrow> progress_line m cfg j \<in> set tr)
           \<and> (0 < k \<and> k = n_samples cfg \<and> 0 < verbose_level cfg \<longrightarrow> summary_line m cfg \<in> set tr)"
proof -
  let ?st0 = "loop_start m cfg (evs0 @ before_probe m cfg)"
  have g: "\<forall>j. 0 \<le> j \<and> j < 0 + k \<longrightarrow> check_pt m (Suc j) \<noteq> None"
    using good by simp
  have len: "0 + k \<le> length (sample_set ?st0)"
    using loop_start_holds(2) [OF d] k by simp
  note inv0 = loop_start_holds(1) [OF d, of cfg "evs0 @ before_probe m cfg"]
  obtain st where it: "iterations m cfg 0 k ?st0 = Some st"
    and inv: "stats_hold m (0 + k) st"
    using iterations_good [OF mv g len inv0] by blast
  have sl: "sample_loop m cfg 0 ?st0 = sample_loop m cfg k st"
    using sample_loop_iterations [OF g, of cfg ?st0] k it by simp
  obtain st' evs where fin: "sample_loop m cfg k st = Some st'"
    and o: "out st' = out st @ evs"
    using sample_loop_Some [OF mv] by blast
  let ?tr = "out st' @ [STOW_PROBE] @ report_results m cfg st' @ cleanup m"
  have rt: "run_test m cfg evs0 = Some ?tr"
    using d sl fin by (simp add: run_test_unfold)
  have pl: "progress_line m cfg j \<in> set ?tr"
    if "0 < j" "j \<le> k" "2 < verbose_level cfg" for j
  proof -
    have "progress_line m cfg j \<in> set (out st)"
      using iterations_progress [OF mv g len inv0 it, of j] that by simp
    then show ?thesis using o by simp
  qed
  have su: "summary_line m cfg \<in> set ?tr"
    if "0 < k" "k = n_samples cfg" "0 < verbose_level cfg"
  proof -
    have "\<not> k < n_samples cfg" using that(2) by simp
    then have "sample_loop m cfg k st = Some st"
      by (subst sample_loop.simps) simp
    with fin have "st' = st" by simp
    then show ?thesis
      using inv that by (simp add: report_results_def stats_hold_def summary_line_def)
  qed
  from it sl inv rt pl su show ?thesis by auto
qed

lemmas run_defs =
  gcode_M48_def validate_def run_test_def initial_state_def cartesian_bench_def
  plain_request_def WITHIN_def sample_loop.simps sample_iteration_def move_pattern_def
  accumulate_def report_results_def Let_def NOMORE_def NOLESS_def sq_def

lemma scenario_run:
  "gcode_M48 scenario_bench (plain_request \<lparr> opt_P := Some 4 \<rparr>)
     = Some [SERIAL_EM ''M48 Z-Probe Repeatability Test'', Set_bed_leveling_enabled False,
             Setup_for_endstop_or_probe_move, Check_pt 100 100 PROBE_PT_RAISE 1, RandomSeed,
             Check_pt 100 100 PROBE_PT_RAISE 0, Check_pt 100 100 PROBE_PT_RAISE 0,
             Check_pt 100 100 PROBE_PT_RAISE 0, Check_pt 100 100 PROBE_PT_RAISE 0,
             STOW_PROBE, SERIAL_EM ''Finished!'',
             Summary 1.00025 0.998 1.002 0.004,
             Standard_deviation (sigma_of [1.000, 1.002, 0.998, 1.001]), SERIAL_EM [],
             Clean_up_after_endstop_or_probe_move, Restore_bed_leveling_state,
             Report_current_position]"
  by (simp add: run_defs scenario_bench_def mean_of_def sigma_of_def eval_nat_numeral
      power2_eq_square)

subsection \<open>A probe reading fails\<close>

text \<open>
  C4. In a run that passed the checks, let reading \<open>i\<close> be the first that is not a
  number (reading 0 is the deployment probe, readings 1 to the sample count are the
  samples). Then the run ends, with \<open>i + 1\<close> probe reads in all and none after the failed
  one, without the summary, the standard deviation or the line "Finished!", and with
  exactly one \<^verbatim>\<open>STOW_PROBE\<close> and one position report, which comes last. The bed
  levelling state is restored exactly once on a build with bed levelling and never on a
  build without it. The movement must end: on a delta the probe has to reach a disc
  around the centre.
\<close>

theorem probe_failure_cleanup:
  assumes v: "validate m req = (evs0, Inr cfg)"
    and mv: "MECH_DELTA m \<longrightarrow> centre_reachable m"
    and bad: "check_pt m i = None" and i: "i \<le> n_samples cfg"
    and good: "\<forall>j<i. check_pt m j \<noteq> None"
  shows "\<exists>tr. gcode_M48 m req = Some tr
           \<and> length (filter is_probe_read tr) = i + 1
           \<and> filter is_report tr = [] \<and> SERIAL_EM ''Finished!'' \<notin> set tr
           \<and> count_list tr STOW_PROBE = 1
           \<and> count_list tr Restore_bed_leveling_state = (if HAS_LEVELING m then 1 else 0)
           \<and> count_list tr Report_current_position = 1
           \<and> last tr = Report_current_position"
proof -
  obtain loop where r: "run_test m cfg evs0
             = Some (evs0 @ before_probe m cfg @ [deployment_probe cfg] @ loop
                     @ [STOW_PROBE] @ cleanup m)"
    and ev: "\<forall>e\<in>set loop. is_loop_event e \<or> e = RandomSeed"
    and rd: "length (filter is_probe_read loop) = i"
    using run_probe_fails [OF mv bad i good] by blast
  let ?tr = "evs0 @ before_probe m cfg @ [deployment_probe cfg] @ loop @ [STOW_PROBE] @ cleanup m"
  note b = validate_passed(1) [OF v]
  note l = loop_event_not_final [OF ev]
  have "gcode_M48 m req = Some ?tr"
    using v r by (simp add: gcode_M48_def)
  moreover have "length (filter is_probe_read ?tr) = i + 1"
    using rd by (simp add: b before_probe_def deployment_probe_def cleanup_def)
  moreover have "filter is_report ?tr = []"
    using l(4) by (simp add: b before_probe_def deployment_probe_def cleanup_def)
  moreover have "SERIAL_EM ''Finished!'' \<notin> set ?tr"
    using l(5) by (simp add: b before_probe_def deployment_probe_def cleanup_def)
  moreover have "count_list ?tr STOW_PROBE = 1"
    using l(1) by (simp add: b before_probe_def deployment_probe_def cleanup_def)
  moreover have "count_list ?tr Restore_bed_leveling_state = (if HAS_LEVELING m then 1 else 0)"
    using l(2) by (simp add: b before_probe_def deployment_probe_def cleanup_def)
  moreover have "count_list ?tr Report_current_position = 1"
    using l(3) by (simp add: b before_probe_def deployment_probe_def cleanup_def)
  moreover have "last ?tr = Report_current_position"
    by (simp add: cleanup_def)
  ultimately show ?thesis by blast
qed

text \<open>
  A delta machine at verbose level 4 with two legs: one move before each sample, and the
  third reading fails.
\<close>

lemma delta_reachable_circle:
  "delta_reachable R (cos a * r) (sin a * r) \<longleftrightarrow> r\<^sup>2 \<le> R\<^sup>2"
proof -
  have "(cos a * r)\<^sup>2 + (sin a * r)\<^sup>2 = ((cos a)\<^sup>2 + (sin a)\<^sup>2) * r\<^sup>2"
    by (simp only: power_mult_distrib distrib_right)
  also have "\<dots> = r\<^sup>2"
    by (simp only: cos_squared_eq) simp
  finally show ?thesis by (simp only: delta_reachable_def)
qed

lemma pull_reachable:
  "reachable x y \<Longrightarrow> pull_towards_center reachable v x y evs = Some (x, y, evs)"
  by (subst pull_towards_center.simps) simp

lemma delta_bench_centre: "centre_reachable delta_bench"
  unfolding centre_reachable_def
  by (rule exI [of _ 100]) (simp add: delta_bench_def delta_reachable_def)

lemma wrap_25: "wrap_angle (0 + 1 * 25) = 25"
  by (simp add: wrap_angle_cases)

lemma delta_bench_sel:
  "HAS_LEVELING delta_bench" "HAS_LCD delta_bench" "MECH_DELTA delta_bench"
  "check_pt delta_bench = (\<lambda>k. if k = 2 then None else Some 1)"
  by (simp_all add: delta_bench_def)

lemma delta_bench_move:
  "move_pattern delta_bench
     \<lparr> verbose_level = 4, n_samples = N, raise_after = r,
       X_probe_location = 0, Y_probe_location = 0, n_legs = 2, schizoid_flag = False \<rparr> ri
   = Some (ri + 4, [Starting_radius 12 0 1,
                    Going_to (cos (RADIANS 25) * 12) (sin (RADIANS 25) * 12),
                    Do_blocking_move_to_xy (cos (RADIANS 25) * 12) (sin (RADIANS 25) * 12)])"
  by (simp add: move_pattern_def leg_loop.simps leg_step_def delta_bench_def wrap_angle_cases
      pull_reachable delta_reachable_circle dir_of_def int_cast_def Let_def)

lemma delta_bench_validate:
  "validate delta_bench (plain_request \<lparr> opt_V := Some 4, opt_L := Some 2 \<rparr>)
     = ([SERIAL_EM ''M48 Z-Probe Repeatability Test''],
        Inr \<lparr> verbose_level = 4, n_samples = 10, raise_after = PROBE_PT_RAISE,
              X_probe_location = 0, Y_probe_location = 0, n_legs = 2,
              schizoid_flag = False \<rparr>)"
  by (simp add: validate_def delta_bench_def plain_request_def WITHIN_def delta_reachable_def)

lemma delta_bench_run:
  "gcode_M48 delta_bench (plain_request \<lparr> opt_V := Some 4, opt_L := Some 2 \<rparr>)
     = Some [SERIAL_EM ''M48 Z-Probe Repeatability Test'',
             SERIAL_EM ''Positioning the probe...'', Set_bed_leveling_enabled False,
             Setup_for_endstop_or_probe_move, Check_pt 0 0 PROBE_PT_RAISE 4, RandomSeed,
             Lcd_point 1 10, Starting_radius 12 0 1,
             Going_to (cos (RADIANS 25) * 12) (sin (RADIANS 25) * 12),
             Do_blocking_move_to_xy (cos (RADIANS 25) * 12) (sin (RADIANS 25) * 12),
             Check_pt 0 0 PROBE_PT_RAISE 0, Progress 1 10 1 (Some (1, 0, 1, 1, 0)),
             Lcd_point 2 10, Starting_radius 12 0 1,
             Going_to (cos (RADIANS 25) * 12) (sin (RADIANS 25) * 12),
             Do_blocking_move_to_xy (cos (RADIANS 25) * 12) (sin (RADIANS 25) * 12),
             Check_pt 0 0 PROBE_PT_RAISE 0,
             STOW_PROBE, Clean_up_after_endstop_or_probe_move, Restore_bed_leveling_state,
             Report_current_position]"
  by (simp add: gcode_M48_def delta_bench_validate run_test_def initial_state_def
      sample_loop.simps sample_iteration_def delta_bench_move delta_bench_sel accumulate_def
      report_results_def Let_def NOMORE_def NOLESS_def sq_def)

theorem probe_failure_cleanup_witness:
  "gcode_M48 delta_bench (plain_request \<lparr> opt_V := Some 4, opt_L := Some 2 \<rparr>)
     = Some [SERIAL_EM ''M48 Z-Probe Repeatability Test'',
             SERIAL_EM ''Positioning the probe...'', Set_bed_leveling_enabled False,
             Setup_for_endstop_or_probe_move, Check_pt 0 0 PROBE_PT_RAISE 4, RandomSeed,
             Lcd_point 1 10, Starting_radius 12 0 1,
             Going_to (cos (RADIANS 25) * 12) (sin (RADIANS 25) * 12),
             Do_blocking_move_to_xy (cos (RADIANS 25) * 12) (sin (RADIANS 25) * 12),
             Check_pt 0 0 PROBE_PT_RAISE 0, Progress 1 10 1 (Some (1, 0, 1, 1, 0)),
             Lcd_point 2 10, Starting_radius 12 0 1,
             Going_to (cos (RADIANS 25) * 12) (sin (RADIANS 25) * 12),
             Do_blocking_move_to_xy (cos (RADIANS 25) * 12) (sin (RADIANS 25) * 12),
             Check_pt 0 0 PROBE_PT_RAISE 0,
             STOW_PROBE, Clean_up_after_endstop_or_probe_move, Restore_bed_leveling_state,
             Report_current_position]
   \<and> (\<exists>tr. gcode_M48 delta_bench (plain_request \<lparr> opt_V := Some 4, opt_L := Some 2 \<rparr>)
             = Some tr
           \<and> length (filter is_probe_read tr) = 2 + 1
           \<and> filter is_report tr = [] \<and> SERIAL_EM ''Finished!'' \<notin> set tr
           \<and> count_list tr STOW_PROBE = 1
           \<and> count_list tr Restore_bed_leveling_state = 1
           \<and> count_list tr Report_current_position = 1
           \<and> last tr = Report_current_position)"
proof -
  let ?cfg = "\<lparr> verbose_level = 4, n_samples = 10, raise_after = PROBE_PT_RAISE,
                 X_probe_location = 0, Y_probe_location = 0, n_legs = 2,
                 schizoid_flag = False \<rparr>"
  have mv: "MECH_DELTA delta_bench \<longrightarrow> centre_reachable delta_bench"
    by (simp add: delta_bench_centre)
  have bad: "check_pt delta_bench 2 = None"
    by (simp add: delta_bench_sel)
  have i: "2 \<le> n_samples ?cfg" by simp
  have good: "\<forall>j<2. check_pt delta_bench j \<noteq> None"
    by (simp add: delta_bench_sel)
  from probe_failure_cleanup [OF delta_bench_validate mv bad i good] delta_bench_run
  show ?thesis by simp
qed

text \<open>
  On a build without bed levelling a failed deployment probe is followed by the stow,
  the clean-up and the position report, and by no restore.
\<close>

theorem no_restore_without_leveling_counterexample:
  "validate bare_bench plain_request
     = ([SERIAL_EM ''M48 Z-Probe Repeatability Test''],
        Inr \<lparr> verbose_level = 1, n_samples = 10, raise_after = PROBE_PT_RAISE,
              X_probe_location = 100, Y_probe_location = 100, n_legs = 0,
              schizoid_flag = False \<rparr>)
   \<and> check_pt bare_bench 0 = None
   \<and> gcode_M48 bare_bench plain_request
       = Some [SERIAL_EM ''M48 Z-Probe Repeatability Test'',
               Setup_for_endstop_or_probe_move, Check_pt 100 100 PROBE_PT_RAISE 1,
               STOW_PROBE, Clean_up_after_endstop_or_probe_move, Report_current_position]
   \<and> count_list [SERIAL_EM ''M48 Z-Probe Repeatability Test'',
               Setup_for_endstop_or_probe_move, Check_pt 100 100 PROBE_PT_RAISE 1,
               STOW_PROBE, Clean_up_after_endstop_or_probe_move, Report_current_position]
         Restore_bed_leveling_state = 0"
  by (simp add: run_defs bare_bench_def)

subsection \<open>The final report\<close>

text \<open>
  C7. When the deployment probe and every sample give a number, the run ends with the
  line "Finished!" and its reports of statistics are: at verbose level 1 to 4 the line
  with mean, min, max and range of the samples, then the standard deviation; at verbose
  level 0 the standard deviation alone.
\<close>

theorem final_report_when_all_good:
  assumes v: "validate m req = (evs0, Inr cfg)"
    and mv: "MECH_DELTA m \<longrightarrow> centre_reachable m"
    and good: "\<forall>j\<le>n_samples cfg. check_pt m j \<noteq> None"
  shows "\<exists>tr. gcode_M48 m req = Some tr \<and> SERIAL_EM ''Finished!'' \<in> set tr
           \<and> filter is_report tr =
               (if verbose_level cfg > 0
                then [Summary (mean_of (samples m (n_samples cfg)))
                        (min_of (samples m (n_samples cfg)))
                        (max_of (samples m (n_samples cfg)))
                        (max_of (samples m (n_samples cfg)) - min_of (samples m (n_samples cfg)))]
                else [])
               @ [Standard_deviation (sigma_of (samples m (n_samples cfg)))]"
proof -
  obtain st loop where r: "run_test m cfg evs0
             = Some (evs0 @ before_probe m cfg @ [deployment_probe cfg, RandomSeed] @ loop
                     @ [STOW_PROBE] @ report_results m cfg st @ cleanup m)"
    and inv: "stats_hold m (n_samples cfg) st"
    and ev: "\<forall>e\<in>set loop. is_loop_event e"
    using run_all_good [OF mv good] by blast
  let ?tr = "evs0 @ before_probe m cfg @ [deployment_probe cfg, RandomSeed] @ loop
               @ [STOW_PROBE] @ report_results m cfg st @ cleanup m"
  note b = validate_passed(1) [OF v]
  have ev': "\<forall>e\<in>set loop. is_loop_event e \<or> e = RandomSeed" using ev by blast
  note l = loop_event_not_final [OF ev']
  have pos: "0 < n_samples cfg" using validate_passed(2) [OF v] by simp
  have st: "probing_good st" "mean st = mean_of (samples m (n_samples cfg))"
    "sigma st = sigma_of (samples m (n_samples cfg))"
    "min_v st = min_of (samples m (n_samples cfg))"
    "max_v st = max_of (samples m (n_samples cfg))"
    using inv pos by (simp_all add: stats_hold_def)
  have "gcode_M48 m req = Some ?tr"
    using v r by (simp add: gcode_M48_def)
  moreover have "SERIAL_EM ''Finished!'' \<in> set ?tr"
    using st(1) by (simp add: report_results_def)
  moreover have "filter is_report ?tr =
               (if verbose_level cfg > 0
                then [Summary (mean_of (samples m (n_samples cfg)))
                        (min_of (samples m (n_samples cfg)))
                        (max_of (samples m (n_samples cfg)))
                        (max_of (samples m (n_samples cfg)) - min_of (samples m (n_samples cfg)))]
                else [])
               @ [Standard_deviation (sigma_of (samples m (n_samples cfg)))]"
    using l(4) st
    by (simp add: b before_probe_def deployment_probe_def cleanup_def report_results_def)
  ultimately show ?thesis by blast
qed

text \<open>The scenario of the spec at verbose level 1.\<close>

theorem final_report_when_all_good_witness:
  "gcode_M48 scenario_bench (plain_request \<lparr> opt_P := Some 4 \<rparr>)
     = Some [SERIAL_EM ''M48 Z-Probe Repeatability Test'', Set_bed_leveling_enabled False,
             Setup_for_endstop_or_probe_move, Check_pt 100 100 PROBE_PT_RAISE 1, RandomSeed,
             Check_pt 100 100 PROBE_PT_RAISE 0, Check_pt 100 100 PROBE_PT_RAISE 0,
             Check_pt 100 100 PROBE_PT_RAISE 0, Check_pt 100 100 PROBE_PT_RAISE 0,
             STOW_PROBE, SERIAL_EM ''Finished!'',
             Summary 1.00025 0.998 1.002 0.004,
             Standard_deviation (sigma_of [1.000, 1.002, 0.998, 1.001]), SERIAL_EM [],
             Clean_up_after_endstop_or_probe_move, Restore_bed_leveling_state,
             Report_current_position]"
proof -
  let ?req = "plain_request \<lparr> opt_P := Some 4 \<rparr>"
  let ?cfg = "\<lparr> verbose_level = 1, n_samples = 4, raise_after = PROBE_PT_RAISE,
                 X_probe_location = 100, Y_probe_location = 100, n_legs = 0,
                 schizoid_flag = False \<rparr>"
  have v: "validate scenario_bench ?req
            = ([SERIAL_EM ''M48 Z-Probe Repeatability Test''], Inr ?cfg)"
    by (simp add: validate_def scenario_bench_def cartesian_bench_def plain_request_def
        WITHIN_def)
  have mv: "MECH_DELTA scenario_bench \<longrightarrow> centre_reachable scenario_bench"
    by (simp add: scenario_bench_def cartesian_bench_def)
  have good: "\<forall>j\<le>n_samples ?cfg. check_pt scenario_bench j \<noteq> None"
    by (simp add: scenario_bench_def del: not_None_eq)
  from scenario_run final_report_when_all_good [OF v mv good] show ?thesis
    by simp
qed

text \<open>At verbose level 0 four good samples give the standard deviation and no summary.\<close>

theorem verbose_zero_counterexample:
  "gcode_M48 cartesian_bench (plain_request \<lparr> opt_V := Some 0, opt_P := Some 4 \<rparr>)
     = Some [Set_bed_leveling_enabled False,
             Setup_for_endstop_or_probe_move, Check_pt 100 100 PROBE_PT_RAISE 0, RandomSeed,
             Check_pt 100 100 PROBE_PT_RAISE 0, Check_pt 100 100 PROBE_PT_RAISE 0,
             Check_pt 100 100 PROBE_PT_RAISE 0, Check_pt 100 100 PROBE_PT_RAISE 0,
             STOW_PROBE, SERIAL_EM ''Finished!'',
             Standard_deviation 0, SERIAL_EM [],
             Clean_up_after_endstop_or_probe_move, Restore_bed_leveling_state,
             Report_current_position]"
  by (simp add: run_defs eval_nat_numeral)

subsection \<open>The running statistics\<close>

lemma within_limits:
  fixes A :: "real set"
  assumes "finite A" "A \<noteq> {}"
  shows "Min (insert c A) = Min A \<longleftrightarrow> (\<exists>z\<in>A. z \<le> c)"
    and "Max (insert c A) = Max A \<longleftrightarrow> (\<exists>z\<in>A. c \<le> z)"
proof -
  have "Min (insert c A) = min c (Min A)" using assms by (rule Min_insert)
  moreover have "Min A \<le> c \<longleftrightarrow> (\<exists>z\<in>A. z \<le> c)" using assms by (rule Min_le_iff)
  ultimately show "Min (insert c A) = Min A \<longleftrightarrow> (\<exists>z\<in>A. z \<le> c)"
    by (auto simp: min_def)
  have "Max (insert c A) = max c (Max A)" using assms by (rule Max_insert)
  moreover have "c \<le> Max A \<longleftrightarrow> (\<exists>z\<in>A. c \<le> z)" using assms by (rule Max_ge_iff)
  ultimately show "Max (insert c A) = Max A \<longleftrightarrow> (\<exists>z\<in>A. c \<le> z)"
    by (auto simp: max_def)
qed

lemma samples_nonempty: "0 < k \<Longrightarrow> set (samples m k) \<noteq> {}"
  by (simp add: samples_def)

lemma state_after_k:
  assumes mv: "MECH_DELTA m \<longrightarrow> centre_reachable m"
    and d: "check_pt m 0 \<noteq> None" and k: "k \<le> n_samples cfg"
    and good: "\<forall>j<k. check_pt m (Suc j) \<noteq> None"
  shows "\<exists>st. iterations m cfg 0 k (loop_start m cfg evs) = Some st
           \<and> sample_loop m cfg 0 (loop_start m cfg evs) = sample_loop m cfg k st
           \<and> stats_hold m k st"
proof -
  let ?st0 = "loop_start m cfg evs"
  have g: "\<forall>j. 0 \<le> j \<and> j < 0 + k \<longrightarrow> check_pt m (Suc j) \<noteq> None"
    using good by simp
  have len: "0 + k \<le> length (sample_set ?st0)"
    using loop_start_holds(2) [OF d] k by simp
  obtain st where it: "iterations m cfg 0 k ?st0 = Some st"
    and inv: "stats_hold m (0 + k) st"
    using iterations_good [OF mv g len loop_start_holds(1) [OF d]] by blast
  have "sample_loop m cfg 0 ?st0 = sample_loop m cfg (0 + k) st"
    using sample_loop_iterations [OF g, of cfg ?st0] k it by simp
  with it inv show ?thesis by simp
qed

text \<open>
  C1. When the deployment probe and the first \<open>k\<close> samples give numbers, \<open>k\<close> passes
  of the sample loop leave a state that the loop goes on from and in which the mean is
  the sum of the \<open>k\<close> samples over \<open>k\<close>, sigma is the square root of the mean squared
  distance of the \<open>k\<close> samples from that mean, the minimum is the least of 99999.9 and
  the samples and the maximum is the greatest of -99999.9 and the samples; these are the
  least and the greatest sample when every sample lies between -99999.9 and 99999.9.
\<close>

theorem statistics_after_k_samples:
  assumes mv: "MECH_DELTA m \<longrightarrow> centre_reachable m"
    and d: "check_pt m 0 \<noteq> None" and k: "0 < k" "k \<le> n_samples cfg"
    and good: "\<forall>j<k. check_pt m (Suc j) \<noteq> None"
  shows "\<exists>st. iterations m cfg 0 k (loop_start m cfg evs) = Some st
           \<and> sample_loop m cfg 0 (loop_start m cfg evs) = sample_loop m cfg k st
           \<and> mean st = sum_list (samples m k) / real k
           \<and> sigma st = sqrt (sum_list (map (\<lambda>z. (z - mean st)\<^sup>2) (samples m k)) / real k)
           \<and> min_v st = Min (insert 99999.9 (set (samples m k)))
           \<and> max_v st = Max (insert (- 99999.9) (set (samples m k)))
           \<and> ((\<forall>z\<in>set (samples m k). - 99999.9 \<le> z \<and> z \<le> 99999.9) \<longrightarrow>
                min_v st = Min (set (samples m k)) \<and> max_v st = Max (set (samples m k)))"
proof -
  obtain st where it: "iterations m cfg 0 k (loop_start m cfg evs) = Some st"
    and sl: "sample_loop m cfg 0 (loop_start m cfg evs) = sample_loop m cfg k st"
    and inv: "stats_hold m k st"
    using state_after_k [OF mv d k(2) good] by blast
  have me: "mean st = sum_list (samples m k) / real k"
    using inv k(1) by (simp add: stats_hold_def mean_of_def length_samples)
  have "sigma st = sigma_of (samples m k)"
    using inv k(1) by (simp add: stats_hold_def)
  then have si: "sigma st = sqrt (sum_list (map (\<lambda>z. (z - mean st)\<^sup>2) (samples m k)) / real k)"
    using me by (simp add: sigma_of_def mean_of_def length_samples)
  have lo: "min_v st = Min (insert 99999.9 (set (samples m k)))"
    using inv by (simp add: stats_hold_def min_of_def)
  have hi: "max_v st = Max (insert (- 99999.9) (set (samples m k)))"
    using inv by (simp add: stats_hold_def max_of_def)
  have ne: "set (samples m k) \<noteq> {}" using k(1) by (rule samples_nonempty)
  have "min_v st = Min (set (samples m k)) \<and> max_v st = Max (set (samples m k))"
    if "\<forall>z\<in>set (samples m k). - 99999.9 \<le> z \<and> z \<le> 99999.9"
  proof -
    have fin: "finite (set (samples m k))" by simp
    note w = within_limits [OF fin ne]
    from ne obtain z where "z \<in> set (samples m k)"
      by (cases "samples m k") auto
    with that have "\<exists>z\<in>set (samples m k). z \<le> 99999.9"
      and "\<exists>z\<in>set (samples m k). - 99999.9 \<le> z"
      by blast+
    then show ?thesis unfolding lo hi using w by blast
  qed
  with it sl me si lo hi show ?thesis by blast
qed

text \<open>The four readings of the spec's scenario.\<close>

theorem statistics_after_k_samples_witness:
  "\<exists>st. iterations scenario_bench
          \<lparr> verbose_level = 1, n_samples = 4, raise_after = PROBE_PT_RAISE,
            X_probe_location = 100, Y_probe_location = 100, n_legs = 0,
            schizoid_flag = False \<rparr> 0 4
          (loop_start scenario_bench
            \<lparr> verbose_level = 1, n_samples = 4, raise_after = PROBE_PT_RAISE,
              X_probe_location = 100, Y_probe_location = 100, n_legs = 0,
              schizoid_flag = False \<rparr> []) = Some st
        \<and> mean st = 1.00025 \<and> min_v st = 0.998 \<and> max_v st = 1.002
        \<and> sigma st = sqrt (((1.000 - 1.00025)\<^sup>2 + (1.002 - 1.00025)\<^sup>2
                              + (0.998 - 1.00025)\<^sup>2 + (1.001 - 1.00025)\<^sup>2) / 4)"
proof -
  let ?cfg = "\<lparr> verbose_level = 1, n_samples = 4, raise_after = PROBE_PT_RAISE,
                 X_probe_location = 100, Y_probe_location = 100, n_legs = 0,
                 schizoid_flag = False \<rparr>"
  have mv: "MECH_DELTA scenario_bench \<longrightarrow> centre_reachable scenario_bench"
    by (simp add: scenario_bench_def cartesian_bench_def)
  have d: "check_pt scenario_bench 0 \<noteq> None"
    by (simp add: scenario_bench_def del: not_None_eq)
  have k: "(0::nat) < 4" "4 \<le> n_samples ?cfg" by simp_all
  have good: "\<forall>j<4. check_pt scenario_bench (Suc j) \<noteq> None"
    by (simp add: scenario_bench_def del: not_None_eq)
  have s: "samples scenario_bench 4 = [1.000, 1.002, 0.998, 1.001]"
    by (simp add: samples_def scenario_bench_def eval_nat_numeral)
  obtain st where it: "iterations scenario_bench ?cfg 0 4 (loop_start scenario_bench ?cfg [])
                        = Some st"
    and me: "mean st = sum_list (samples scenario_bench 4) / real 4"
    and si: "sigma st = sqrt (sum_list (map (\<lambda>z. (z - mean st)\<^sup>2) (samples scenario_bench 4))
                               / real 4)"
    and lo: "min_v st = Min (insert 99999.9 (set (samples scenario_bench 4)))"
    and hi: "max_v st = Max (insert (- 99999.9) (set (samples scenario_bench 4)))"
    using statistics_after_k_samples [OF mv d k good, of "[]"] by blast
  have me': "mean st = 1.00025" using me by (simp add: s)
  have "sigma st = sqrt (((1.000 - 1.00025)\<^sup>2 + (1.002 - 1.00025)\<^sup>2
                              + (0.998 - 1.00025)\<^sup>2 + (1.001 - 1.00025)\<^sup>2) / 4)"
    using si unfolding me' s by simp
  moreover have "min_v st = 0.998" using lo by (simp add: s)
  moreover have "max_v st = 1.002" using hi by (simp add: s)
  ultimately show ?thesis using it me' by blast
qed

text \<open>Four samples of 100000 are reported with the minimum 99999.9.\<close>

theorem limit_reported_as_min_counterexample:
  "gcode_M48 far_bench (plain_request \<lparr> opt_P := Some 4 \<rparr>)
     = Some [SERIAL_EM ''M48 Z-Probe Repeatability Test'', Set_bed_leveling_enabled False,
             Setup_for_endstop_or_probe_move, Check_pt 100 100 PROBE_PT_RAISE 1, RandomSeed,
             Check_pt 100 100 PROBE_PT_RAISE 0, Check_pt 100 100 PROBE_PT_RAISE 0,
             Check_pt 100 100 PROBE_PT_RAISE 0, Check_pt 100 100 PROBE_PT_RAISE 0,
             STOW_PROBE, SERIAL_EM ''Finished!'',
             Summary 100000 99999.9 100000 0.1, Standard_deviation 0, SERIAL_EM [],
             Clean_up_after_endstop_or_probe_move, Restore_bed_leveling_state,
             Report_current_position]
   \<and> samples far_bench 4 = [100000, 100000, 100000, 100000]"
  by (simp add: run_defs far_bench_def samples_def eval_nat_numeral)

text \<open>
  C9. The running minimum and maximum start at 99999.9 and -99999.9. In a run that
  passed the checks and whose deployment probe and first \<open>k\<close> samples are numbers, the
  sample loop passes through a state whose minimum is the least of 99999.9 and the
  \<open>k\<close> samples and whose maximum is the greatest of -99999.9 and the \<open>k\<close> samples; at
  verbose level 3 or 4 the progress line of every sample \<open>j \<le> k\<close> reports these values
  for the first \<open>j\<close> samples, and when \<open>k\<close> is the sample count the summary line
  reports them at verbose level 1 or more. For \<open>k > 0\<close> the value is the least sample
  exactly when some sample is at most 99999.9, and the greatest sample exactly when
  some sample is at least -99999.9.
\<close>

theorem reported_min_max_from_limits:
  assumes v: "validate m req = (evs0, Inr cfg)"
    and mv: "MECH_DELTA m \<longrightarrow> centre_reachable m"
    and d: "check_pt m 0 \<noteq> None" and k: "k \<le> n_samples cfg"
    and good: "\<forall>j<k. check_pt m (Suc j) \<noteq> None"
  shows "min_v (initial_state m cfg evs) = 99999.9 \<and> max_v (initial_state m cfg evs) = - 99999.9
         \<and> (\<exists>st. iterations m cfg 0 k (loop_start m cfg (evs0 @ before_probe m cfg)) = Some st
              \<and> sample_loop m cfg 0 (loop_start m cfg (evs0 @ before_probe m cfg))
                  = sample_loop m cfg k st
              \<and> min_v st = Min (insert 99999.9 (set (samples m k)))
              \<and> max_v st = Max (insert (- 99999.9) (set (samples m k))))
         \<and> (\<exists>tr. gcode_M48 m req = Some tr
              \<and> (\<forall>j. 0 < j \<and> j \<le> k \<and> 2 < verbose_level cfg \<longrightarrow>
                     Progress j (n_samples cfg) (the (check_pt m j))
                       (Some (mean_of (samples m j), sigma_of (samples m j),
                              Min (insert 99999.9 (set (samples m j))),
                              Max (insert (- 99999.9) (set (samples m j))),
                              Max (insert (- 99999.9) (set (samples m j)))
                                - Min (insert 99999.9 (set (samples m j))))) \<in> set tr)
              \<and> (k = n_samples cfg \<and> 0 < verbose_level cfg \<longrightarrow>
                     Summary (mean_of (samples m k))
                       (Min (insert 99999.9 (set (samples m k))))
                       (Max (insert (- 99999.9) (set (samples m k))))
                       (Max (insert (- 99999.9) (set (samples m k)))
                          - Min (insert 99999.9 (set (samples m k)))) \<in> set tr))
         \<and> (0 < k \<longrightarrow>
               (Min (insert 99999.9 (set (samples m k))) = Min (set (samples m k))
                  \<longleftrightarrow> (\<exists>z\<in>set (samples m k). z \<le> 99999.9))
             \<and> (Max (insert (- 99999.9) (set (samples m k))) = Max (set (samples m k))
                  \<longleftrightarrow> (\<exists>z\<in>set (samples m k). - 99999.9 \<le> z)))"
proof -
  obtain st tr where it: "iterations m cfg 0 k (loop_start m cfg (evs0 @ before_probe m cfg))
                            = Some st"
    and sl: "sample_loop m cfg 0 (loop_start m cfg (evs0 @ before_probe m cfg))
               = sample_loop m cfg k st"
    and inv: "stats_hold m k st"
    and rt: "run_test m cfg evs0 = Some tr"
    and pl: "\<forall>j. 0 < j \<and> j \<le> k \<and> 2 < verbose_level cfg \<longrightarrow> progress_line m cfg j \<in> set tr"
    and su: "0 < k \<and> k = n_samples cfg \<and> 0 < verbose_level cfg \<longrightarrow> summary_line m cfg \<in> set tr"
    using run_reports [OF mv d k good] by blast
  have lim: "min_v (initial_state m cfg evs) = 99999.9"
    "max_v (initial_state m cfg evs) = - 99999.9"
    by (simp_all add: initial_state_def)
  have lo: "min_v st = Min (insert 99999.9 (set (samples m k)))"
    using inv by (simp add: stats_hold_def min_of_def)
  have hi: "max_v st = Max (insert (- 99999.9) (set (samples m k)))"
    using inv by (simp add: stats_hold_def max_of_def)
  have g: "gcode_M48 m req = Some tr"
    using v rt by (simp add: gcode_M48_def)
  have pos: "0 < n_samples cfg" using validate_passed(2) [OF v] by simp
  have pl': "\<forall>j. 0 < j \<and> j \<le> k \<and> 2 < verbose_level cfg \<longrightarrow>
                     Progress j (n_samples cfg) (the (check_pt m j))
                       (Some (mean_of (samples m j), sigma_of (samples m j),
                              Min (insert 99999.9 (set (samples m j))),
                              Max (insert (- 99999.9) (set (samples m j))),
                              Max (insert (- 99999.9) (set (samples m j)))
                                - Min (insert 99999.9 (set (samples m j))))) \<in> set tr"
    using pl by (simp add: progress_line_def min_of_def max_of_def)
  have su': "k = n_samples cfg \<and> 0 < verbose_level cfg \<longrightarrow>
                     Summary (mean_of (samples m k))
                       (Min (insert 99999.9 (set (samples m k))))
                       (Max (insert (- 99999.9) (set (samples m k))))
                       (Max (insert (- 99999.9) (set (samples m k)))
                          - Min (insert 99999.9 (set (samples m k)))) \<in> set tr"
    using su pos by (auto simp: summary_line_def min_of_def max_of_def)
  have iff: "(Min (insert 99999.9 (set (samples m k))) = Min (set (samples m k))
                  \<longleftrightarrow> (\<exists>z\<in>set (samples m k). z \<le> 99999.9))
             \<and> (Max (insert (- 99999.9) (set (samples m k))) = Max (set (samples m k))
                  \<longleftrightarrow> (\<exists>z\<in>set (samples m k). - 99999.9 \<le> z))"
    if "0 < k"
  proof -
    have fin: "finite (set (samples m k))" by simp
    note w = within_limits [OF fin samples_nonempty [OF that]]
    show ?thesis using w by blast
  qed
  from lim it sl lo hi g pl' su' iff show ?thesis by blast
qed

text \<open>
  Samples of 100000 are reported with the minimum 99999.9 in every progress line and
  in the summary.
\<close>

theorem reported_min_max_from_limits_witness:
  "gcode_M48 far_bench (plain_request \<lparr> opt_V := Some 3, opt_P := Some 4 \<rparr>)
     = Some [SERIAL_EM ''M48 Z-Probe Repeatability Test'',
             SERIAL_EM ''Positioning the probe...'', Set_bed_leveling_enabled False,
             Setup_for_endstop_or_probe_move, Check_pt 100 100 PROBE_PT_RAISE 3, RandomSeed,
             Check_pt 100 100 PROBE_PT_RAISE 0,
             Progress 1 4 100000 (Some (100000, 0, 99999.9, 100000, 0.1)),
             Check_pt 100 100 PROBE_PT_RAISE 0,
             Progress 2 4 100000 (Some (100000, 0, 99999.9, 100000, 0.1)),
             Check_pt 100 100 PROBE_PT_RAISE 0,
             Progress 3 4 100000 (Some (100000, 0, 99999.9, 100000, 0.1)),
             Check_pt 100 100 PROBE_PT_RAISE 0,
             Progress 4 4 100000 (Some (100000, 0, 99999.9, 100000, 0.1)),
             STOW_PROBE, SERIAL_EM ''Finished!'',
             Summary 100000 99999.9 100000 0.1, Standard_deviation 0, SERIAL_EM [],
             Clean_up_after_endstop_or_probe_move, Restore_bed_leveling_state,
             Report_current_position]
   \<and> Min (set (samples far_bench 4)) = 100000"
proof -
  let ?req = "plain_request \<lparr> opt_V := Some 3, opt_P := Some 4 \<rparr>"
  let ?cfg = "\<lparr> verbose_level = 3, n_samples = 4, raise_after = PROBE_PT_RAISE,
                 X_probe_location = 100, Y_probe_location = 100, n_legs = 0,
                 schizoid_flag = False \<rparr>"
  have v: "validate far_bench ?req = ([SERIAL_EM ''M48 Z-Probe Repeatability Test''], Inr ?cfg)"
    by (simp add: validate_def far_bench_def cartesian_bench_def plain_request_def WITHIN_def)
  have mv: "MECH_DELTA far_bench \<longrightarrow> centre_reachable far_bench"
    by (simp add: far_bench_def cartesian_bench_def)
  have d: "check_pt far_bench 0 \<noteq> None"
    by (simp add: far_bench_def)
  have k: "4 \<le> n_samples ?cfg" by simp
  have good: "\<forall>j<4. check_pt far_bench (Suc j) \<noteq> None"
    by (simp add: far_bench_def)
  have e: "gcode_M48 far_bench ?req
     = Some [SERIAL_EM ''M48 Z-Probe Repeatability Test'',
             SERIAL_EM ''Positioning the probe...'', Set_bed_leveling_enabled False,
             Setup_for_endstop_or_probe_move, Check_pt 100 100 PROBE_PT_RAISE 3, RandomSeed,
             Check_pt 100 100 PROBE_PT_RAISE 0,
             Progress 1 4 100000 (Some (100000, 0, 99999.9, 100000, 0.1)),
             Check_pt 100 100 PROBE_PT_RAISE 0,
             Progress 2 4 100000 (Some (100000, 0, 99999.9, 100000, 0.1)),
             Check_pt 100 100 PROBE_PT_RAISE 0,
             Progress 3 4 100000 (Some (100000, 0, 99999.9, 100000, 0.1)),
             Check_pt 100 100 PROBE_PT_RAISE 0,
             Progress 4 4 100000 (Some (100000, 0, 99999.9, 100000, 0.1)),
             STOW_PROBE, SERIAL_EM ''Finished!'',
             Summary 100000 99999.9 100000 0.1, Standard_deviation 0, SERIAL_EM [],
             Clean_up_after_endstop_or_probe_move, Restore_bed_leveling_state,
             Report_current_position]"
    by (simp add: run_defs far_bench_def eval_nat_numeral)
  have s: "Min (set (samples far_bench 4)) = 100000"
    by (simp add: samples_def far_bench_def eval_nat_numeral)
  note t = reported_min_max_from_limits [OF v mv d k good]
  from t e s show ?thesis by blast
qed

text \<open>
  The samples 1, 200000, 1, 1 are reported with their true minimum and maximum, though
  one of them lies outside the limits.
\<close>

theorem true_min_max_outside_limits_counterexample:
  "gcode_M48 wide_bench (plain_request \<lparr> opt_P := Some 4 \<rparr>)
     = Some [SERIAL_EM ''M48 Z-Probe Repeatability Test'', Set_bed_leveling_enabled False,
             Setup_for_endstop_or_probe_move, Check_pt 100 100 PROBE_PT_RAISE 1, RandomSeed,
             Check_pt 100 100 PROBE_PT_RAISE 0, Check_pt 100 100 PROBE_PT_RAISE 0,
             Check_pt 100 100 PROBE_PT_RAISE 0, Check_pt 100 100 PROBE_PT_RAISE 0,
             STOW_PROBE, SERIAL_EM ''Finished!'',
             Summary 50000.75 1 200000 199999,
             Standard_deviation (sigma_of [1, 200000, 1, 1]), SERIAL_EM [],
             Clean_up_after_endstop_or_probe_move, Restore_bed_leveling_state,
             Report_current_position]
   \<and> samples wide_bench 4 = [1, 200000, 1, 1]
   \<and> Min (set (samples wide_bench 4)) = 1 \<and> Max (set (samples wide_bench 4)) = 200000
   \<and> \<not> (200000 < (99999.9 :: real))"
  by (simp add: run_defs wide_bench_def samples_def mean_of_def sigma_of_def eval_nat_numeral
      power2_eq_square)

subsection \<open>The deployment reading\<close>

lemma leg_step_check_pt: "leg_step (m \<lparr> check_pt := f \<rparr>) cfg dir radius s = leg_step m cfg dir radius s"
  by (simp add: leg_step_def Let_def cong: option.case_cong prod.case_cong if_cong)

lemma leg_loop_check_pt:
  "leg_loop (m \<lparr> check_pt := f \<rparr>) cfg dir radius l s = leg_loop m cfg dir radius l s"
proof (induction "n_legs cfg - 1 - l" arbitrary: l s)
  case 0
  then have "\<not> l < n_legs cfg - 1" by linarith
  then show ?case
    by (simp add: leg_loop.simps [of _ cfg dir radius l s])
next
  case (Suc d)
  then have l: "l < n_legs cfg - 1" and d: "d = n_legs cfg - 1 - Suc l"
    by linarith+
  show ?case
    using l Suc.hyps(1) [OF d]
    by (simp add: leg_loop.simps [of _ cfg dir radius l s] leg_step_check_pt
        cong: option.case_cong)
qed

lemma move_pattern_check_pt: "move_pattern (m \<lparr> check_pt := f \<rparr>) cfg ri = move_pattern m cfg ri"
  by (simp add: move_pattern_def leg_loop_check_pt Let_def
      cong: option.case_cong prod.case_cong if_cong)

lemma sample_iteration_check_pt:
  "sample_iteration (m \<lparr> check_pt := (check_pt m)(0 := t) \<rparr>) cfg n st
     = sample_iteration m cfg n st"
  by (simp add: sample_iteration_def move_pattern_check_pt Let_def
      cong: option.case_cong prod.case_cong if_cong)

lemma sample_loop_check_pt:
  "sample_loop (m \<lparr> check_pt := (check_pt m)(0 := t) \<rparr>) cfg n st = sample_loop m cfg n st"
proof (induction "n_samples cfg - n" arbitrary: n st)
  case 0
  then have "\<not> n < n_samples cfg" by linarith
  then show ?case
    by (simp add: sample_loop.simps [of _ cfg n st])
next
  case (Suc d)
  then have n: "n < n_samples cfg" and d: "d = n_samples cfg - Suc n"
    by linarith+
  show ?case
    using n Suc.hyps(1) [OF d]
    by (simp add: sample_loop.simps [of _ cfg n st] sample_iteration_check_pt
        cong: option.case_cong if_cong)
qed

text \<open>
  C10. The reading of the deployment probe only decides whether the sample loop starts:
  when it is a number, replacing it by any other number changes nothing in the run, so
  no reported count, mean, sigma, minimum or maximum depends on it. The samples the
  statistics are computed from are the readings taken inside the loop.
\<close>

theorem deployment_reading_not_in_statistics:
  assumes "check_pt m 0 \<noteq> None"
  shows "gcode_M48 (m \<lparr> check_pt := (check_pt m)(0 := Some t) \<rparr>) req = gcode_M48 m req"
proof -
  let ?m = "m \<lparr> check_pt := (check_pt m)(0 := Some t) \<rparr>"
  have v: "validate ?m req = validate m req"
    by (simp add: validate_def Let_def cong: option.case_cong if_cong)
  have i: "initial_state ?m cfg evs = initial_state m cfg evs" for cfg evs
    using assms by (simp add: initial_state_def)
  have "run_test ?m cfg evs = run_test m cfg evs" for cfg evs
    by (simp add: run_test_def i sample_loop_check_pt report_results_def Let_def
        cong: option.case_cong if_cong)
  with v show ?thesis
    by (simp add: gcode_M48_def cong: prod.case_cong sum.case_cong)
qed

text \<open>With a deployment reading of 7 the scenario reports the same statistics.\<close>

theorem deployment_reading_not_in_statistics_witness:
  "gcode_M48 (scenario_bench \<lparr> check_pt := (check_pt scenario_bench)(0 := Some 7) \<rparr>)
        (plain_request \<lparr> opt_P := Some 4 \<rparr>)
     = Some [SERIAL_EM ''M48 Z-Probe Repeatability Test'', Set_bed_leveling_enabled False,
             Setup_for_endstop_or_probe_move, Check_pt 100 100 PROBE_PT_RAISE 1, RandomSeed,
             Check_pt 100 100 PROBE_PT_RAISE 0, Check_pt 100 100 PROBE_PT_RAISE 0,
             Check_pt 100 100 PROBE_PT_RAISE 0, Check_pt 100 100 PROBE_PT_RAISE 0,
             STOW_PROBE, SERIAL_EM ''Finished!'',
             Summary 1.00025 0.998 1.002 0.004,
             Standard_deviation (sigma_of [1.000, 1.002, 0.998, 1.001]), SERIAL_EM [],
             Clean_up_after_endstop_or_probe_move, Restore_bed_leveling_state,
             Report_current_position]"
proof -
  have d: "check_pt scenario_bench 0 \<noteq> None"
    by (simp add: scenario_bench_def del: not_None_eq)
  from deployment_reading_not_in_statistics [OF d, of 7 "plain_request \<lparr> opt_P := Some 4 \<rparr>"]
    scenario_run
  show ?thesis by simp
qed

end
